theory Spec2Isabelle
  imports Main
begin

section \<open>The credential and session subsystem of the tracker (utils/auth)\<close>

text \<open>
  The module keeps three collections in the browser's local storage (users, sessions,
  security logs) and reads the whole collection, changes it in memory and writes it back.
  The embedding makes that storage an explicit \<open>store\<close> value that every operation takes
  and returns. What the module gets from outside is an argument of each operation:
  \<^item> the clock: every \<open>new Date()\<close> and \<open>Date.now()\<close> that a call evaluates is its own
    reading, in milliseconds. An operation that reads the clock at one place takes the
    reading as \<open>now\<close>; \<open>registerUser\<close> reads it twice and takes two; \<open>loginUser\<close> reads it
    at six places and takes the record \<open>login_clock\<close>, one field for each place;
  \<^item> \<open>uuidv4()\<close> is the argument \<open>uuid\<close>, and the salt bcrypt draws is the argument
    \<open>salt\<close>;
  \<^item> the libraries bcryptjs and validator are the record \<open>lib\<close>.

  Dates are stored as ISO strings and parsed back with \<open>new Date(s)\<close>, a round trip that
  gives the same millisecond, so a stored date is an \<open>int\<close>. A field that is
  \<open>undefined\<close> is \<open>None\<close>. JavaScript strings are modelled as \<open>string\<close>, for text whose
  characters are ASCII. Storage is assumed to hold well-formed collections and not to
  throw, so the \<open>catch\<close> branches are not reached. The asynchronous operations wait for
  bcrypt only, and no other operation runs while they wait. Console output is not part
  of the state; the alert of \<open>sendSecurityAlert\<close> is.
\<close>

subsection \<open>Data\<close>

record user =
  studyId :: string
  email :: string
  passwordHash :: string
  preferredName :: string
  createdAt :: int
  lastLogin :: int
  failedAttempts :: int
  lockedUntil :: "int option"
  isVerified :: bool
  resetToken :: "string option"
  resetTokenExpiry :: "int option"

record auth_session =
  s_studyId :: string
  s_email :: string
  sessionToken :: string
  expiresAt :: int

record log_entry =
  log_timestamp :: int
  log_event :: string
  log_identifier :: string

text \<open>\<open>alerts\<close> records the calls of \<open>sendSecurityAlert\<close> (email, name), newest last.\<close>

record store =
  users :: "user list"
  sessions :: "auth_session list"
  security_logs :: "log_entry list"
  alerts :: "(string \<times> string) list"

record lib =
  bcrypt_hash :: "string \<Rightarrow> string \<Rightarrow> string"
  bcrypt_compare :: "string \<Rightarrow> string \<Rightarrow> bool"
  validator_isEmail :: "string \<Rightarrow> bool"
  validator_escape :: "string \<Rightarrow> string"

record password_validation =
  isValid :: bool
  errors :: "string list"

record login_result =
  l_success :: bool
  l_user :: "user option"
  l_error :: "string option"
  l_locked :: "bool option"
  l_sessionToken :: "string option"

record op_result =
  success :: bool
  error :: "string option"

definition MAX_FAILED_ATTEMPTS :: int where
  "MAX_FAILED_ATTEMPTS = 3"

definition LOCK_DURATION :: int where
  "LOCK_DURATION = 30 * 60 * 1000"

definition SESSION_DURATION :: int where
  "SESSION_DURATION = 24 * 60 * 60 * 1000"

subsection \<open>Strings\<close>

definition char_between :: "nat \<Rightarrow> nat \<Rightarrow> char \<Rightarrow> bool" where
  "char_between lo hi c = (lo \<le> of_char c \<and> (of_char c :: nat) \<le> hi)"

text \<open>The character classes of the regular expressions in \<open>validatePassword\<close>.\<close>

definition is_upper :: "char \<Rightarrow> bool" where
  "is_upper c = char_between 65 90 c"

definition is_lower :: "char \<Rightarrow> bool" where
  "is_lower c = char_between 97 122 c"

definition is_digit :: "char \<Rightarrow> bool" where
  "is_digit c = char_between 48 57 c"

definition special_chars :: string where
  "special_chars = ''!@#$%^&*(),.?'' @ [CHR 0x22] @ '':{}|<>''"

definition is_special :: "char \<Rightarrow> bool" where
  "is_special c = (c \<in> set special_chars)"

definition regex_test :: "(char \<Rightarrow> bool) \<Rightarrow> string \<Rightarrow> bool" where
  "regex_test cls s = list_ex cls s"

definition toLowerCase :: "string \<Rightarrow> string" where
  "toLowerCase s = map (\<lambda>c. if is_upper c then char_of (of_char c + (32::nat)) else c) s"

definition is_space :: "char \<Rightarrow> bool" where
  "is_space c = (char_between 9 13 c \<or> of_char c = (32::nat))"

definition trim :: "string \<Rightarrow> string" where
  "trim s = rev (dropWhile is_space (rev (dropWhile is_space s)))"

definition endsWith :: "string \<Rightarrow> string \<Rightarrow> bool" where
  "endsWith s t = (length t \<le> length s \<and> drop (length s - length t) s = t)"

fun join :: "string \<Rightarrow> string list \<Rightarrow> string" where
  "join sep [] = []"
| "join sep [x] = x"
| "join sep (x # y # ys) = x @ sep @ join sep (y # ys)"

text \<open>A number in a template literal: decimal digits, a leading minus when negative.\<close>

fun digits :: "nat \<Rightarrow> string" where
  "digits n =
     (if n < 10 then [char_of (48 + n)]
      else digits (n div 10) @ [char_of (48 + n mod 10)])"

declare digits.simps [simp del]

definition show_int :: "int \<Rightarrow> string" where
  "show_int i = (if i < 0 then CHR ''-'' # digits (nat (- i)) else digits (nat i))"

subsection \<open>Input validation and sanitization\<close>

definition validateEmail :: "lib \<Rightarrow> string \<Rightarrow> bool" where
  "validateEmail L e = (validator_isEmail L e \<and> endsWith e ''@gmail.com'')"

definition validatePassword :: "string \<Rightarrow> password_validation" where
  "validatePassword password =
     (let e0 = [];
          e1 = (if length password < 8
                then e0 @ [''Password must be at least 8 characters long''] else e0);
          e2 = (if \<not> regex_test is_upper password
                then e1 @ [''Password must contain at least one uppercase letter''] else e1);
          e3 = (if \<not> regex_test is_lower password
                then e2 @ [''Password must contain at least one lowercase letter''] else e2);
          e4 = (if \<not> regex_test is_digit password
                then e3 @ [''Password must contain at least one number''] else e3);
          e5 = (if \<not> regex_test is_special password
                then e4 @ [''Password must contain at least one special character''] else e4)
      in \<lparr>isValid = (length e5 = 0), errors = e5\<rparr>)"

definition sanitizeInput :: "lib \<Rightarrow> string \<Rightarrow> string" where
  "sanitizeInput L input = validator_escape L (trim input)"

subsection \<open>Security logging and alerts\<close>

definition logSecurityEvent :: "int \<Rightarrow> string \<Rightarrow> string \<Rightarrow> store \<Rightarrow> store" where
  "logSecurityEvent now ev ident st =
     (let securityLogs = security_logs st @ [\<lparr>log_timestamp = now, log_event = ev, log_identifier = ident\<rparr>];
          securityLogs' = (if length securityLogs > 100
                           then drop (length securityLogs - 100) securityLogs
                           else securityLogs)
      in st\<lparr>security_logs := securityLogs'\<rparr>)"

definition sendSecurityAlert :: "string \<Rightarrow> string \<Rightarrow> store \<Rightarrow> store" where
  "sendSecurityAlert em name st = st\<lparr>alerts := alerts st @ [(em, name)]\<rparr>"

subsection \<open>User management\<close>

text \<open>
  \<open>users.find(p)\<close> is \<open>List.find p\<close>. The object it returns is the element of the array
  itself, so assigning to its fields changes the array that \<open>saveUsers\<close> then writes:
  \<open>update_first p f\<close> applies \<open>f\<close> to the first element that satisfies \<open>p\<close>.
\<close>

fun update_first :: "('a \<Rightarrow> bool) \<Rightarrow> ('a \<Rightarrow> 'a) \<Rightarrow> 'a list \<Rightarrow> 'a list" where
  "update_first p f [] = []"
| "update_first p f (x # xs) = (if p x then f x # xs else x # update_first p f xs)"

record register_result =
  r_success :: bool
  r_studyId :: "string option"
  r_error :: "string option"

definition generateStudyId :: "string \<Rightarrow> string" where
  "generateStudyId uuid = ''STUDY-'' @ uuid"

definition register_failure :: "string \<Rightarrow> register_result" where
  "register_failure msg = \<lparr>r_success = False, r_studyId = None, r_error = Some msg\<rparr>"

text \<open>\<open>now\<close> is the clock read for \<open>createdAt\<close>, \<open>now2\<close> the clock read for \<open>lastLogin\<close>.\<close>

definition registerUser ::
  "lib \<Rightarrow> int \<Rightarrow> int \<Rightarrow> string \<Rightarrow> string \<Rightarrow> store \<Rightarrow> string \<Rightarrow> string \<Rightarrow> string
    \<Rightarrow> string option \<Rightarrow> register_result \<times> store" where
  "registerUser L now now2 salt uuid st em password name customStudyId =
     (let sanitizedEmail = sanitizeInput L (toLowerCase em);
          sanitizedName = sanitizeInput L name;
          passwordValidation = validatePassword password
      in if \<not> validateEmail L sanitizedEmail
         then (register_failure ''Please enter a valid Gmail address'', st)
         else if \<not> isValid passwordValidation
         then (register_failure (join ''. '' (errors passwordValidation)), st)
         else if length sanitizedName < 2
         then (register_failure ''Preferred name must be at least 2 characters long'', st)
         else if List.find (\<lambda>u. email u = sanitizedEmail) (users st) \<noteq> None
         then (register_failure ''This Gmail address is already registered'', st)
         else
           (let sid = (case customStudyId of
                         None \<Rightarrow> generateStudyId uuid
                       | Some c \<Rightarrow> if c = [] then generateStudyId uuid else c)
            in if List.find (\<lambda>u. studyId u = sid) (users st) \<noteq> None
               then (register_failure ''Study ID already exists. Please choose another one.'', st)
               else
                 (let newUser = \<lparr>studyId = sid, email = sanitizedEmail,
                        passwordHash = bcrypt_hash L salt password,
                        preferredName = sanitizedName, createdAt = now, lastLogin = now2,
                        failedAttempts = 0, lockedUntil = None, isVerified = True,
                        resetToken = None, resetTokenExpiry = None\<rparr>
                  in (\<lparr>r_success = True, r_studyId = Some sid, r_error = None\<rparr>,
                      st\<lparr>users := users st @ [newUser]\<rparr>))))"

subsection \<open>Session management\<close>

definition createSession :: "int \<Rightarrow> string \<Rightarrow> user \<Rightarrow> store \<Rightarrow> auth_session \<times> store" where
  "createSession now uuid usr st =
     (let session = \<lparr>s_studyId = studyId usr, s_email = email usr, sessionToken = uuid,
                      expiresAt = now + SESSION_DURATION\<rparr>;
          filteredSessions = filter (\<lambda>s. s_studyId s \<noteq> studyId usr) (sessions st)
      in (session, st\<lparr>sessions := filteredSessions @ [session]\<rparr>))"

definition validateSession :: "int \<Rightarrow> store \<Rightarrow> string \<Rightarrow> user option \<times> store" where
  "validateSession now st token =
     (case List.find (\<lambda>s. sessionToken s = token) (sessions st) of
        None \<Rightarrow> (None, st)
      | Some session \<Rightarrow>
          if now > expiresAt session
          then (None, st\<lparr>sessions := filter (\<lambda>s. sessionToken s \<noteq> token) (sessions st)\<rparr>)
          else (List.find (\<lambda>u. studyId u = s_studyId session) (users st), st))"

definition logout :: "store \<Rightarrow> string \<Rightarrow> store" where
  "logout st token = st\<lparr>sessions := filter (\<lambda>s. sessionToken s \<noteq> token) (sessions st)\<rparr>"

subsection \<open>Login\<close>

definition matches_login :: "string \<Rightarrow> user \<Rightarrow> bool" where
  "matches_login sanitizedInput u =
     (toLowerCase (studyId u) = sanitizedInput \<or> toLowerCase (email u) = sanitizedInput)"

text \<open>
  The clock readings of one call of \<open>loginUser\<close>, in the order of the source:
  \<open>lock_test\<close> is \<open>new Date()\<close> in the lock check, \<open>lock_message\<close> the \<open>new Date()\<close> in the
  minutes of the locked response, \<open>lock_set\<close> the \<open>Date.now()\<close> that the new lock expiry is
  counted from, \<open>event_log\<close> the timestamp \<open>logSecurityEvent\<close> takes, \<open>last_login\<close> the
  \<open>new Date()\<close> stored as \<open>lastLogin\<close>, and \<open>session_start\<close> the \<open>Date.now()\<close> of
  \<open>createSession\<close>. A call evaluates only the readings on its path.
\<close>

record login_clock =
  lock_test :: int
  lock_message :: int
  lock_set :: int
  event_log :: int
  last_login :: int
  session_start :: int

text \<open>
  \<open>Math.ceil((until - now) / (1000 * 60))\<close>: the quotient of the two integers, rounded up.
\<close>

definition lockTimeRemaining :: "int \<Rightarrow> int \<Rightarrow> int" where
  "lockTimeRemaining now until = - ((now - until) div (1000 * 60))"

text \<open>
  The lock check \<open>user.lockedUntil && new Date() < new Date(user.lockedUntil)\<close>: the lock
  expiry when the account is locked at the reading \<open>now\<close>, \<open>None\<close> when it is not.
\<close>

definition locked_until :: "int \<Rightarrow> user \<Rightarrow> int option" where
  "locked_until now u =
     (case lockedUntil u of
        None \<Rightarrow> None
      | Some until \<Rightarrow> if now < until then Some until else None)"

definition loginUser ::
  "lib \<Rightarrow> login_clock \<Rightarrow> string \<Rightarrow> store \<Rightarrow> string \<Rightarrow> string \<Rightarrow> login_result \<times> store" where
  "loginUser L clock uuid st studyIdOrEmail password =
     (let sanitizedInput = sanitizeInput L (toLowerCase studyIdOrEmail) in
      case List.find (matches_login sanitizedInput) (users st) of
        None \<Rightarrow>
          (\<lparr>l_success = False, l_user = None,
            l_error = Some ''Invalid credentials. Please check your Study ID/Email and password.'',
            l_locked = None, l_sessionToken = None\<rparr>,
           logSecurityEvent (event_log clock) ''INVALID_CREDENTIALS'' sanitizedInput st)
      | Some usr \<Rightarrow>
          (case locked_until (lock_test clock) usr of
             Some until \<Rightarrow>
               (let minutes = lockTimeRemaining (lock_message clock) until
                in (\<lparr>l_success = False, l_user = None,
                     l_error = Some
                       (''Account temporarily locked due to multiple failed attempts. Try again in ''
                          @ show_int minutes @ '' minutes.''),
                     l_locked = Some True, l_sessionToken = None\<rparr>,
                    st))
           | None \<Rightarrow>
          if \<not> bcrypt_compare L password (passwordHash usr) then
            (let usr1 = usr\<lparr>failedAttempts := failedAttempts usr + 1\<rparr>;
                 lck = (failedAttempts usr1 \<ge> MAX_FAILED_ATTEMPTS);
                 usr2 = (if lck
                         then usr1\<lparr>lockedUntil := Some (lock_set clock + LOCK_DURATION)\<rparr>
                         else usr1);
                 st1 = (if lck
                        then logSecurityEvent (event_log clock) ''ACCOUNT_LOCKED'' (email usr2)
                               (sendSecurityAlert (email usr2) (preferredName usr2) st)
                        else st);
                 st2 = st1\<lparr>users :=
                         update_first (matches_login sanitizedInput) (\<lambda>_. usr2) (users st1)\<rparr>
             in (\<lparr>l_success = False, l_user = None,
                  l_error = Some
                    (''Invalid password. ''
                       @ show_int (MAX_FAILED_ATTEMPTS - failedAttempts usr2)
                       @ '' attempts remaining before account lock.''),
                  l_locked = None, l_sessionToken = None\<rparr>,
                 st2))
          else
            (let usr1 = usr\<lparr>failedAttempts := 0, lockedUntil := None,
                            lastLogin := last_login clock\<rparr>;
                 st1 = st\<lparr>users :=
                         update_first (matches_login sanitizedInput) (\<lambda>_. usr1) (users st)\<rparr>;
                 (session, st2) = createSession (session_start clock) uuid usr1 st1
             in (\<lparr>l_success = True, l_user = Some usr1, l_error = None, l_locked = None,
                  l_sessionToken = Some (sessionToken session)\<rparr>,
                 st2))))"

subsection \<open>Password reset\<close>

definition op_ok :: op_result where
  "op_ok = \<lparr>success = True, error = None\<rparr>"

definition op_failure :: "string \<Rightarrow> op_result" where
  "op_failure msg = \<lparr>success = False, error = Some msg\<rparr>"

definition initiatePasswordReset ::
  "lib \<Rightarrow> int \<Rightarrow> string \<Rightarrow> store \<Rightarrow> string \<Rightarrow> op_result \<times> store" where
  "initiatePasswordReset L now uuid st em =
     (let sanitizedEmail = sanitizeInput L (toLowerCase em) in
      if \<not> validateEmail L sanitizedEmail
      then (op_failure ''Please enter a valid Gmail address'', st)
      else
        (case List.find (\<lambda>u. email u = sanitizedEmail) (users st) of
           None \<Rightarrow> (op_ok, st)
         | Some usr \<Rightarrow>
             (op_ok,
              st\<lparr>users := update_first (\<lambda>u. email u = sanitizedEmail)
                    (\<lambda>u. u\<lparr>resetToken := Some uuid,
                            resetTokenExpiry := Some (now + 60 * 60 * 1000)\<rparr>)
                    (users st)\<rparr>)))"

text \<open>
  The guard \<open>!user || user.resetToken !== resetToken || !user.resetTokenExpiry ||
  new Date() > new Date(user.resetTokenExpiry)\<close>, for a user that was found.
\<close>

definition ticket_rejected :: "int \<Rightarrow> string \<Rightarrow> user \<Rightarrow> bool" where
  "ticket_rejected now token u =
     (resetToken u \<noteq> Some token \<or>
      (case resetTokenExpiry u of None \<Rightarrow> True | Some expiry \<Rightarrow> now > expiry))"

definition resetPassword ::
  "lib \<Rightarrow> int \<Rightarrow> string \<Rightarrow> store \<Rightarrow> string \<Rightarrow> string \<Rightarrow> string \<Rightarrow> op_result \<times> store" where
  "resetPassword L now salt st em token newPassword =
     (let sanitizedEmail = sanitizeInput L (toLowerCase em);
          passwordValidation = validatePassword newPassword
      in if \<not> isValid passwordValidation
         then (op_failure (join ''. '' (errors passwordValidation)), st)
         else
           (case List.find (\<lambda>u. email u = sanitizedEmail) (users st) of
              None \<Rightarrow> (op_failure ''Invalid or expired reset token'', st)
            | Some usr \<Rightarrow>
                if ticket_rejected now token usr
                then (op_failure ''Invalid or expired reset token'', st)
                else
                  (op_ok,
                   st\<lparr>users := update_first (\<lambda>u. email u = sanitizedEmail)
                         (\<lambda>u. u\<lparr>passwordHash := bcrypt_hash L salt newPassword,
                                 resetToken := None, resetTokenExpiry := None,
                                 failedAttempts := 0, lockedUntil := None\<rparr>)
                         (users st)\<rparr>)))"

subsection \<open>Data access control\<close>

definition hasDataAccess :: "int \<Rightarrow> store \<Rightarrow> string \<Rightarrow> string \<Rightarrow> bool \<times> store" where
  "hasDataAccess now st token requestedStudyId =
     (let (usr, st') = validateSession now st token
      in ((case usr of None \<Rightarrow> False | Some u \<Rightarrow> studyId u = requestedStudyId), st'))"

definition getCurrentUser :: "int \<Rightarrow> store \<Rightarrow> string \<Rightarrow> user option \<times> store" where
  "getCurrentUser now st token = validateSession now st token"

subsection \<open>Notions used to state the properties\<close>

text \<open>The five rules of the password policy, as the specification words them.\<close>

datatype rule = MinLength | Uppercase | Lowercase | Digit | Symbol

fun violates :: "rule \<Rightarrow> string \<Rightarrow> bool" where
  "violates MinLength p = (\<not> length p \<ge> 8)"
| "violates Uppercase p = (\<not> (\<exists>c \<in> set p. is_upper c))"
| "violates Lowercase p = (\<not> (\<exists>c \<in> set p. is_lower c))"
| "violates Digit p = (\<not> (\<exists>c \<in> set p. is_digit c))"
| "violates Symbol p = (\<not> (\<exists>c \<in> set p. c \<in> set special_chars))"

fun rule_message :: "rule \<Rightarrow> string" where
  "rule_message MinLength = ''Password must be at least 8 characters long''"
| "rule_message Uppercase = ''Password must contain at least one uppercase letter''"
| "rule_message Lowercase = ''Password must contain at least one lowercase letter''"
| "rule_message Digit = ''Password must contain at least one number''"
| "rule_message Symbol = ''Password must contain at least one special character''"

definition all_rules :: "rule list" where
  "all_rules = [MinLength, Uppercase, Lowercase, Digit, Symbol]"

text \<open>The user record a login with this identifier, or a reset for this email, works on.\<close>

definition login_user_of :: "lib \<Rightarrow> store \<Rightarrow> string \<Rightarrow> user option" where
  "login_user_of L st studyIdOrEmail =
     List.find (matches_login (sanitizeInput L (toLowerCase studyIdOrEmail))) (users st)"

definition reset_user_of :: "lib \<Rightarrow> store \<Rightarrow> string \<Rightarrow> user option" where
  "reset_user_of L st em =
     List.find (\<lambda>u. email u = sanitizeInput L (toLowerCase em)) (users st)"

text \<open>The session a token resolves to.\<close>

definition session_of :: "store \<Rightarrow> string \<Rightarrow> auth_session option" where
  "session_of st token = List.find (\<lambda>s. sessionToken s = token) (sessions st)"

text \<open>
  The record of a user after a failed password check, with \<open>now\<close> the reading
  \<open>lock_set\<close>, and after a successful login, with \<open>now\<close> the reading \<open>last_login\<close>, as
  \<open>loginUser\<close> writes them.
\<close>

definition failed_user :: "int \<Rightarrow> user \<Rightarrow> user" where
  "failed_user now u =
     (if failedAttempts u + 1 \<ge> MAX_FAILED_ATTEMPTS
      then u\<lparr>failedAttempts := failedAttempts u + 1, lockedUntil := Some (now + LOCK_DURATION)\<rparr>
      else u\<lparr>failedAttempts := failedAttempts u + 1\<rparr>)"

definition logged_in_user :: "int \<Rightarrow> user \<Rightarrow> user" where
  "logged_in_user now u = u\<lparr>failedAttempts := 0, lockedUntil := None, lastLogin := now\<rparr>"

text \<open>The record of a user after a completed password reset.\<close>

definition reset_user :: "string \<Rightarrow> user \<Rightarrow> user" where
  "reset_user h u =
     u\<lparr>passwordHash := h, resetToken := None, resetTokenExpiry := None,
       failedAttempts := 0, lockedUntil := None\<rparr>"

text \<open>Every record that carries a lock expiry has at least three failed attempts.\<close>

definition lock_inv :: "store \<Rightarrow> bool" where
  "lock_inv st = (\<forall>u \<in> set (users st). lockedUntil u \<noteq> None \<longrightarrow> 3 \<le> failedAttempts u)"

subsection \<open>A concrete library and store to run the operations on\<close>

text \<open>
  Executable stand-ins for the two libraries, used only to evaluate the operations at
  concrete inputs. \<open>demo_escape\<close> is the replacement table of validator's \<open>escape\<close>.
  \<open>demo_isEmail\<close> accepts a non-empty local part, one \<open>@\<close> and a domain with a dot.
  \<open>demo_hash\<close> and \<open>demo_compare\<close> keep bcrypt's contract for a salt without \<open>$\<close>:
  a password verifies against its own hash and no other password does.
\<close>

definition escape_char :: "char \<Rightarrow> string" where
  "escape_char c =
     (if c = CHR ''&'' then ''&amp;''
      else if c = CHR 0x22 then ''&quot;''
      else if c = CHR 0x27 then ''&#x27;''
      else if c = CHR ''<'' then ''&lt;''
      else if c = CHR ''>'' then ''&gt;''
      else if c = CHR ''/'' then ''&#x2F;''
      else if c = CHR 0x5C then ''&#x5C;''
      else if c = CHR 0x60 then ''&#96;''
      else [c])"

definition demo_escape :: "string \<Rightarrow> string" where
  "demo_escape s = concat (map escape_char s)"

definition demo_isEmail :: "string \<Rightarrow> bool" where
  "demo_isEmail s =
     (let local_part = takeWhile (\<lambda>c. c \<noteq> CHR ''@'') s;
          domain = drop (length local_part + 1) s
      in local_part \<noteq> [] \<and> length local_part < length s \<and>
         CHR ''@'' \<notin> set domain \<and> CHR ''.'' \<in> set domain \<and> \<not> list_ex is_space s)"

definition demo_hash :: "string \<Rightarrow> string \<Rightarrow> string" where
  "demo_hash salt password = salt @ ''$'' @ password"

definition demo_compare :: "string \<Rightarrow> string \<Rightarrow> bool" where
  "demo_compare password hash = (dropWhile (\<lambda>c. c \<noteq> CHR ''$'') hash = ''$'' @ password)"

definition demo_lib :: lib where
  "demo_lib = \<lparr>bcrypt_hash = demo_hash, bcrypt_compare = demo_compare,
               validator_isEmail = demo_isEmail, validator_escape = demo_escape\<rparr>"

definition ana :: user where
  "ana = \<lparr>studyId = ''STUDY-1'', email = ''ana@gmail.com'',
          passwordHash = demo_hash ''salt'' ''Abcdef1!'', preferredName = ''Ana'',
          createdAt = 0, lastLogin = 0, failedAttempts = 0, lockedUntil = None,
          isVerified = True, resetToken = None, resetTokenExpiry = None\<rparr>"

definition bob :: user where
  "bob = \<lparr>studyId = ''STUDY-2'', email = ''bob@gmail.com'',
          passwordHash = demo_hash ''salt'' ''Qwerty9?'', preferredName = ''Bob'',
          createdAt = 0, lastLogin = 0, failedAttempts = 0, lockedUntil = None,
          isVerified = True, resetToken = None, resetTokenExpiry = None\<rparr>"

definition demo_store :: store where
  "demo_store = \<lparr>users = [ana, bob], sessions = [], security_logs = [], alerts = []\<rparr>"

text \<open>A store where Ana has one session, with token \<open>tok-a\<close>, until 90000.\<close>

definition ana_session :: auth_session where
  "ana_session = \<lparr>s_studyId = ''STUDY-1'', s_email = ''ana@gmail.com'',
                  sessionToken = ''tok-a'', expiresAt = 90000\<rparr>"

definition session_store :: store where
  "session_store = demo_store\<lparr>sessions := [ana_session]\<rparr>"

text \<open>
  A clock for one call of \<open>loginUser\<close> that starts at \<open>t\<close> and moves on by \<open>d\<close> from one
  reading of a path to the next; with \<open>d = 0\<close> it stands still during the call.
\<close>

definition ticking_clock :: "int \<Rightarrow> int \<Rightarrow> login_clock" where
  "ticking_clock t d =
     \<lparr>lock_test = t, lock_message = t + d, lock_set = t + d, event_log = t + 2 * d,
      last_login = t + d, session_start = t + 2 * d\<rparr>"

text \<open>Ana locked until 1803000 after three failures, and Ana holding a reset ticket.\<close>

definition locked_ana :: user where
  "locked_ana = ana\<lparr>failedAttempts := 3, lockedUntil := Some 1803000\<rparr>"

definition locked_store :: store where
  "locked_store = demo_store\<lparr>users := [locked_ana, bob]\<rparr>"

definition ticket_ana :: user where
  "ticket_ana = locked_ana\<lparr>resetToken := Some ''r-1'', resetTokenExpiry := Some 5000\<rparr>"

definition ticket_store :: store where
  "ticket_store = demo_store\<lparr>users := [ticket_ana, bob]\<rparr>"

section \<open>Properties\<close>

subsection \<open>Password policy\<close>

lemma rule_message_inj: "(rule_message r = rule_message r') = (r = r')"
  by (cases r; cases r'; simp)

lemma rule_cases_all:
  "(\<forall>r. P r) = (P MinLength \<and> P Uppercase \<and> P Lowercase \<and> P Digit \<and> P Symbol)"
  by (metis rule.exhaust)

lemma validatePassword_errors:
  "errors (validatePassword p) = map rule_message (filter (\<lambda>r. violates r p) all_rules)"
  by (simp add: validatePassword_def Let_def all_rules_def regex_test_def list_ex_iff
      is_special_def)

lemma validatePassword_isValid:
  "isValid (validatePassword p) = (errors (validatePassword p) = [])"
  by (simp add: validatePassword_def Let_def)

text \<open>
  C8. \<open>validatePassword\<close> reports every violated rule, not only the first: the error list
  is the list of the messages of exactly the violated rules, in the order of the rules, one
  message for each; it marks the password valid exactly when the list is empty, which is
  exactly when no rule is violated.
\<close>

theorem validatePassword_reports_every_violation:
  "errors (validatePassword p) = map rule_message (filter (\<lambda>r. violates r p) all_rules)
   \<and> (\<forall>r. (rule_message r \<in> set (errors (validatePassword p))) = violates r p)
   \<and> distinct (errors (validatePassword p))
   \<and> isValid (validatePassword p) = (errors (validatePassword p) = [])
   \<and> isValid (validatePassword p) = (\<forall>r. \<not> violates r p)"
proof -
  have all: "set all_rules = UNIV"
    using rule.exhaust by (auto simp: all_rules_def)
  have dist: "distinct all_rules"
    by (simp add: all_rules_def)
  have e: "errors (validatePassword p) = map rule_message (filter (\<lambda>r. violates r p) all_rules)"
    by (rule validatePassword_errors)
  have m: "\<forall>r. (rule_message r \<in> set (errors (validatePassword p))) = violates r p"
    by (auto simp: e all rule_message_inj)
  have d: "distinct (errors (validatePassword p))"
    unfolding e by (simp add: distinct_map dist inj_on_def rule_message_inj)
  have v: "isValid (validatePassword p) = (errors (validatePassword p) = [])"
    by (rule validatePassword_isValid)
  have "(errors (validatePassword p) = []) = (\<forall>r. \<not> violates r p)"
    unfolding e by (simp add: filter_empty_conv all)
  with e m d v show ?thesis by simp
qed

text \<open>
  The password \<open>abc\<close> breaks four rules and gets the four messages; \<open>Abcdef1!\<close> breaks
  none and is valid.
\<close>

theorem validatePassword_reports_every_violation_witness:
  "errors (validatePassword ''abc'') =
     [''Password must be at least 8 characters long'',
      ''Password must contain at least one uppercase letter'',
      ''Password must contain at least one number'',
      ''Password must contain at least one special character'']
   \<and> isValid (validatePassword ''abc'') = False
   \<and> isValid (validatePassword ''Abcdef1!'') = True"
proof -
  have v: "violates MinLength ''abc'' \<and> violates Uppercase ''abc''
      \<and> \<not> violates Lowercase ''abc'' \<and> violates Digit ''abc'' \<and> violates Symbol ''abc''"
    by code_simp
  have w: "\<forall>r. \<not> violates r ''Abcdef1!''"
    unfolding rule_cases_all by code_simp
  show ?thesis
    using validatePassword_reports_every_violation [of "''abc''"]
      validatePassword_reports_every_violation [of "''Abcdef1!''"] v w
    by (simp add: all_rules_def)
qed

subsection \<open>Security event log\<close>

text \<open>
  C9. \<open>logSecurityEvent\<close> appends the entry of the current time, the event and the
  identifier, and keeps the most recent 100 entries: the new log is the old log with the
  entry at its end, without its oldest entries beyond 100. It never has more than 100
  entries, and the new entry is its last. The other collections are untouched.
\<close>

theorem logSecurityEvent_keeps_last_100:
  "security_logs (logSecurityEvent now ev ident st) =
     drop (length (security_logs st) + 1 - 100)
       (security_logs st @ [\<lparr>log_timestamp = now, log_event = ev, log_identifier = ident\<rparr>])
   \<and> length (security_logs (logSecurityEvent now ev ident st))
       = min 100 (length (security_logs st) + 1)
   \<and> length (security_logs (logSecurityEvent now ev ident st)) \<le> 100
   \<and> last (security_logs (logSecurityEvent now ev ident st))
       = \<lparr>log_timestamp = now, log_event = ev, log_identifier = ident\<rparr>
   \<and> users (logSecurityEvent now ev ident st) = users st
   \<and> sessions (logSecurityEvent now ev ident st) = sessions st
   \<and> alerts (logSecurityEvent now ev ident st) = alerts st"
  by (simp add: logSecurityEvent_def Let_def)

text \<open>A full log of 100 entries stays at 100 entries, and the new entry is the last.\<close>

theorem logSecurityEvent_keeps_last_100_witness:
  "length (security_logs (logSecurityEvent 7 ''ACCOUNT_LOCKED'' ''ana@gmail.com''
      (demo_store\<lparr>security_logs :=
         replicate 100 \<lparr>log_timestamp = 1, log_event = ''E'', log_identifier = ''x''\<rparr>\<rparr>))) = 100
   \<and> last (security_logs (logSecurityEvent 7 ''ACCOUNT_LOCKED'' ''ana@gmail.com''
      (demo_store\<lparr>security_logs :=
         replicate 100 \<lparr>log_timestamp = 1, log_event = ''E'', log_identifier = ''x''\<rparr>\<rparr>)))
      = \<lparr>log_timestamp = 7, log_event = ''ACCOUNT_LOCKED'', log_identifier = ''ana@gmail.com''\<rparr>"
  using logSecurityEvent_keeps_last_100 [of 7 "''ACCOUNT_LOCKED''" "''ana@gmail.com''"
      "demo_store\<lparr>security_logs :=
         replicate 100 \<lparr>log_timestamp = 1, log_event = ''E'', log_identifier = ''x''\<rparr>\<rparr>"]
  by simp

subsection \<open>Searching and updating lists\<close>

lemma find_Some_mem: "List.find p xs = Some x \<Longrightarrow> x \<in> set xs \<and> p x"
  by (induction xs) (auto split: if_splits)

lemma find_exists: "x \<in> set xs \<Longrightarrow> p x \<Longrightarrow> \<exists>y. List.find p xs = Some y"
  by (induction xs) auto

lemma find_app:
  "List.find p (xs @ ys) = (case List.find p xs of None \<Rightarrow> List.find p ys | Some x \<Rightarrow> Some x)"
  by (induction xs) auto

lemma distinct_map_filter_keep: "distinct (map f xs) \<Longrightarrow> distinct (map f (filter p xs))"
  by (induction xs) auto

subsection \<open>Sessions\<close>

lemma session_of_None: "(session_of st token = None) = (\<forall>s \<in> set (sessions st). sessionToken s \<noteq> token)"
  by (auto simp: session_of_def find_None_iff)

lemma session_of_Some: "session_of st token = Some s \<Longrightarrow> s \<in> set (sessions st) \<and> sessionToken s = token"
  unfolding session_of_def by (drule find_Some_mem) simp

lemma validateSession_absent:
  "session_of st token = None \<Longrightarrow> validateSession now st token = (None, st)"
  by (simp add: validateSession_def session_of_def)

lemma validateSession_stale:
  "session_of st token = Some s \<Longrightarrow> now > expiresAt s \<Longrightarrow>
     validateSession now st token =
       (None, st\<lparr>sessions := filter (\<lambda>x. sessionToken x \<noteq> token) (sessions st)\<rparr>)"
  by (simp add: validateSession_def session_of_def)

lemma validateSession_live:
  "session_of st token = Some s \<Longrightarrow> \<not> now > expiresAt s \<Longrightarrow>
     validateSession now st token = (List.find (\<lambda>u. studyId u = s_studyId s) (users st), st)"
  by (simp add: validateSession_def session_of_def)

text \<open>
  C7. \<open>validateSession\<close> has three cases. When no session has the token it returns none
  and leaves the store as it is. When the token resolves to a session \<open>s\<close> (the first
  session of the collection that has the token) and the clock is past its expiry, it returns none and writes the sessions back without the ones that
  carry the token, so \<open>s\<close> is gone and the token resolves to nothing. Otherwise the store is
  unchanged and the result is the first user record whose identifier is the owner of
  \<open>s\<close>: a record of the store with that identifier, present whenever the store has one.
\<close>

theorem validateSession_three_cases:
  "(session_of st token = None \<longrightarrow> validateSession now st token = (None, st))
   \<and> (\<forall>s. session_of st token = Some s \<and> now > expiresAt s \<longrightarrow>
        fst (validateSession now st token) = None
        \<and> snd (validateSession now st token) =
            st\<lparr>sessions := filter (\<lambda>x. sessionToken x \<noteq> token) (sessions st)\<rparr>
        \<and> s \<notin> set (sessions (snd (validateSession now st token)))
        \<and> session_of (snd (validateSession now st token)) token = None)
   \<and> (\<forall>s. session_of st token = Some s \<and> \<not> now > expiresAt s \<longrightarrow>
        snd (validateSession now st token) = st
        \<and> fst (validateSession now st token) =
            List.find (\<lambda>u. studyId u = s_studyId s) (users st)
        \<and> (\<forall>u. fst (validateSession now st token) = Some u \<longrightarrow>
              u \<in> set (users st) \<and> studyId u = s_studyId s)
        \<and> ((\<exists>u \<in> set (users st). studyId u = s_studyId s) \<longrightarrow>
              fst (validateSession now st token) \<noteq> None))
   \<and> (session_of st token = None) = (\<forall>s \<in> set (sessions st). sessionToken s \<noteq> token)
   \<and> (\<forall>s. session_of st token = Some s \<longrightarrow>
        s \<in> set (sessions st) \<and> sessionToken s = token)"
proof (intro conjI allI impI)
  assume "session_of st token = None"
  then show "validateSession now st token = (None, st)" by (rule validateSession_absent)
next
  show "(session_of st token = None) = (\<forall>s \<in> set (sessions st). sessionToken s \<noteq> token)"
    by (rule session_of_None)
next
  fix s assume "session_of st token = Some s"
  then show "s \<in> set (sessions st)" "sessionToken s = token"
    by (simp_all add: session_of_Some)
next
  fix s assume a: "session_of st token = Some s \<and> now > expiresAt s"
  then have v: "validateSession now st token =
       (None, st\<lparr>sessions := filter (\<lambda>x. sessionToken x \<noteq> token) (sessions st)\<rparr>)"
    by (simp add: validateSession_stale)
  show "fst (validateSession now st token) = None" by (simp add: v)
  show "snd (validateSession now st token) =
            st\<lparr>sessions := filter (\<lambda>x. sessionToken x \<noteq> token) (sessions st)\<rparr>" by (simp add: v)
  from a session_of_Some [of st token s] have "sessionToken s = token" by simp
  then show "s \<notin> set (sessions (snd (validateSession now st token)))" by (simp add: v)
  show "session_of (snd (validateSession now st token)) token = None"
    by (simp add: v session_of_None)
next
  fix s assume a: "session_of st token = Some s \<and> \<not> now > expiresAt s"
  then have v: "validateSession now st token = (List.find (\<lambda>u. studyId u = s_studyId s) (users st), st)"
    by (simp add: validateSession_live)
  show "snd (validateSession now st token) = st" by (simp add: v)
  show "fst (validateSession now st token) = List.find (\<lambda>u. studyId u = s_studyId s) (users st)"
    by (simp add: v)
  { fix u assume "fst (validateSession now st token) = Some u"
    then have "List.find (\<lambda>u. studyId u = s_studyId s) (users st) = Some u" by (simp add: v)
    then show "u \<in> set (users st)" "studyId u = s_studyId s"
      by (auto dest: find_Some_mem) }
  { assume "\<exists>u \<in> set (users st). studyId u = s_studyId s"
    then show "fst (validateSession now st token) \<noteq> None"
      by (auto simp: v find_None_iff) }
qed

text \<open>
  On a store with one session of Ana that expires at 90000: an unknown token, the token
  after expiry (the session is removed), and the token before expiry (Ana's record).
\<close>

theorem validateSession_three_cases_witness:
  "validateSession 500 session_store ''tok-x'' = (None, session_store)
   \<and> fst (validateSession 90001 session_store ''tok-a'') = None
   \<and> sessions (snd (validateSession 90001 session_store ''tok-a'')) = []
   \<and> validateSession 500 session_store ''tok-a'' = (Some ana, session_store)"
proof -
  have h1: "session_of session_store ''tok-x'' = None" by code_simp
  have h2: "session_of session_store ''tok-a'' = Some ana_session" by code_simp
  have h3: "expiresAt ana_session = 90000" by (simp add: ana_session_def)
  have h4: "List.find (\<lambda>u. studyId u = s_studyId ana_session) (users session_store) = Some ana"
    by code_simp
  have h5: "sessions session_store = [ana_session]"
    by (simp add: session_store_def)
  have h6: "sessionToken ana_session = ''tok-a''" by (simp add: ana_session_def)
  note a = validateSession_three_cases [of session_store "''tok-x''" 500]
  note b = validateSession_three_cases [of session_store "''tok-a''" 90001]
  note c = validateSession_three_cases [of session_store "''tok-a''" 500]
  from a h1 have 1: "validateSession 500 session_store ''tok-x'' = (None, session_store)"
    by simp
  from b h2 h3 have 2: "fst (validateSession 90001 session_store ''tok-a'') = None
      \<and> snd (validateSession 90001 session_store ''tok-a'') =
            session_store\<lparr>sessions := filter (\<lambda>x. sessionToken x \<noteq> ''tok-a'') (sessions session_store)\<rparr>"
    by simp
  from c h2 h3 h4 have 3: "snd (validateSession 500 session_store ''tok-a'') = session_store
      \<and> fst (validateSession 500 session_store ''tok-a'') = Some ana"
    by simp
  from 1 2 3 h5 h6 show ?thesis by (simp add: prod_eq_iff)
qed

lemma hasDataAccess_validate:
  "hasDataAccess now st token target =
     ((case fst (validateSession now st token) of None \<Rightarrow> False | Some u \<Rightarrow> studyId u = target),
      snd (validateSession now st token))"
  by (simp add: hasDataAccess_def split_def Let_def)

text \<open>
  C6. \<open>hasDataAccess\<close> is true exactly when \<open>validateSession\<close> resolves the token to a
  user whose identifier is the requested one; that is, exactly when the token has a
  session that has not expired, the session's owner is the requested identifier and the
  store has a record of that identifier. A valid token of one user gives no access to
  any other identifier. The store is left as \<open>validateSession\<close> leaves it.
\<close>

theorem hasDataAccess_iff_owner:
  "fst (hasDataAccess now st token target) =
     (\<exists>u. fst (validateSession now st token) = Some u \<and> studyId u = target)
   \<and> fst (hasDataAccess now st token target) =
     (\<exists>s. session_of st token = Some s \<and> \<not> now > expiresAt s \<and> s_studyId s = target
           \<and> (\<exists>u \<in> set (users st). studyId u = target))
   \<and> snd (hasDataAccess now st token target) = snd (validateSession now st token)
   \<and> (\<forall>a. fst (validateSession now st token) = Some a \<and> studyId a \<noteq> target \<longrightarrow>
         fst (hasDataAccess now st token target) = False)"
proof -
  have 1: "fst (hasDataAccess now st token target) =
     (\<exists>u. fst (validateSession now st token) = Some u \<and> studyId u = target)"
    by (auto simp: hasDataAccess_validate split: option.splits)
  have 2: "(\<exists>u. fst (validateSession now st token) = Some u \<and> studyId u = target) =
     (\<exists>s. session_of st token = Some s \<and> \<not> now > expiresAt s \<and> s_studyId s = target
           \<and> (\<exists>u \<in> set (users st). studyId u = target))"
  proof (cases "session_of st token")
    case None
    then show ?thesis by (simp add: validateSession_absent)
  next
    case (Some s)
    show ?thesis
    proof (cases "now > expiresAt s")
      case True
      with Some show ?thesis by (simp add: validateSession_stale)
    next
      case False
      with Some show ?thesis
      proof -
        have v: "fst (validateSession now st token) = List.find (\<lambda>u. studyId u = s_studyId s) (users st)"
          using Some False by (simp add: validateSession_live)
        show ?thesis
        proof
          assume "\<exists>u. fst (validateSession now st token) = Some u \<and> studyId u = target"
          then obtain u where u: "List.find (\<lambda>u. studyId u = s_studyId s) (users st) = Some u" "studyId u = target"
            by (auto simp: v)
          from find_Some_mem [OF u(1)] u(2) Some False
          show "\<exists>s. session_of st token = Some s \<and> \<not> now > expiresAt s \<and> s_studyId s = target
           \<and> (\<exists>u \<in> set (users st). studyId u = target)" by auto
        next
          assume "\<exists>s. session_of st token = Some s \<and> \<not> now > expiresAt s \<and> s_studyId s = target
           \<and> (\<exists>u \<in> set (users st). studyId u = target)"
          with Some obtain u where u: "u \<in> set (users st)" "studyId u = target" "s_studyId s = target" by auto
          then obtain y where y: "List.find (\<lambda>u. studyId u = s_studyId s) (users st) = Some y"
            using find_exists [of u "users st" "\<lambda>u. studyId u = s_studyId s"] by auto
          from find_Some_mem [OF y] u(3) have "studyId y = target" by simp
          with y show "\<exists>u. fst (validateSession now st token) = Some u \<and> studyId u = target"
            by (simp add: v)
        qed
      qed
    qed
  qed
  have 3: "snd (hasDataAccess now st token target) = snd (validateSession now st token)"
    by (simp add: hasDataAccess_validate)
  show ?thesis using 1 2 3 by auto
qed

text \<open>Ana's valid token opens Ana's data and not Bob's.\<close>

theorem hasDataAccess_iff_owner_witness:
  "fst (hasDataAccess 500 session_store ''tok-a'' ''STUDY-1'') = True
   \<and> fst (hasDataAccess 500 session_store ''tok-a'' ''STUDY-2'') = False"
proof -
  have v: "fst (validateSession 500 session_store ''tok-a'') = Some ana" by code_simp
  have a: "studyId ana = ''STUDY-1''" by (simp add: ana_def)
  from hasDataAccess_iff_owner [of 500 session_store "''tok-a''" "''STUDY-1''"]
    hasDataAccess_iff_owner [of 500 session_store "''tok-a''" "''STUDY-2''"] v a
  show ?thesis by simp
qed

lemma createSession_fst:
  "fst (createSession now uuid usr st) =
     \<lparr>s_studyId = studyId usr, s_email = email usr, sessionToken = uuid,
      expiresAt = now + SESSION_DURATION\<rparr>"
  by (simp add: createSession_def Let_def)

lemma createSession_snd:
  "snd (createSession now uuid usr st) =
     st\<lparr>sessions := filter (\<lambda>s. s_studyId s \<noteq> studyId usr) (sessions st)
                      @ [fst (createSession now uuid usr st)]\<rparr>"
  by (simp add: createSession_def Let_def)

lemma createSession_new_token_lookup:
  assumes "uuid \<notin> sessionToken ` set (sessions st)"
  shows "session_of (snd (createSession now uuid usr st)) uuid = Some (fst (createSession now uuid usr st))"
proof -
  have "List.find (\<lambda>s. sessionToken s = uuid) (filter (\<lambda>s. s_studyId s \<noteq> studyId usr) (sessions st)) = None"
    using assms by (auto simp: find_None_iff)
  then show ?thesis
    by (simp add: session_of_def createSession_snd find_app createSession_fst)
qed

lemma createSession_old_token_lookup:
  assumes d: "distinct (map sessionToken (sessions st))"
    and f: "uuid \<notin> sessionToken ` set (sessions st)"
    and o: "old \<in> set (sessions st)" "s_studyId old = studyId usr"
  shows "session_of (snd (createSession now uuid usr st)) (sessionToken old) = None"
proof -
  have inj: "inj_on sessionToken (set (sessions st))"
    using d by (simp add: distinct_map)
  have "\<forall>s \<in> set (sessions st). sessionToken s = sessionToken old \<longrightarrow> s = old"
    using inj o(1) by (auto dest: inj_onD)
  then have 1: "\<forall>s \<in> set (filter (\<lambda>s. s_studyId s \<noteq> studyId usr) (sessions st)).
       sessionToken s \<noteq> sessionToken old"
    using o(2) by auto
  have 2: "uuid \<noteq> sessionToken old" using f o(1) by auto
  show ?thesis
    using 1 2 by (auto simp: session_of_None createSession_snd createSession_fst)
qed

text \<open>
  C4. After \<open>createSession\<close> for a user, the only session of that user in the collection
  is the new one, and the sessions of the other users are as before; so a collection with
  at most one session for each user stays so. When the new token is fresh (no stored
  session has it) and the stored tokens are pairwise distinct, the tokens stay distinct,
  the token of every earlier session of that user no longer validates, at any time, and
  the new token validates until its expiry, resolving to the stored record of that
  user's identifier, which exists when the user is registered.
\<close>

theorem createSession_single_active_session:
  "filter (\<lambda>s. s_studyId s = studyId usr) (sessions (snd (createSession now uuid usr st)))
     = [fst (createSession now uuid usr st)]
   \<and> filter (\<lambda>s. s_studyId s \<noteq> studyId usr) (sessions (snd (createSession now uuid usr st)))
     = filter (\<lambda>s. s_studyId s \<noteq> studyId usr) (sessions st)
   \<and> fst (createSession now uuid usr st) =
       \<lparr>s_studyId = studyId usr, s_email = email usr, sessionToken = uuid,
        expiresAt = now + SESSION_DURATION\<rparr>
   \<and> (distinct (map s_studyId (sessions st)) \<longrightarrow>
        distinct (map s_studyId (sessions (snd (createSession now uuid usr st)))))
   \<and> (distinct (map sessionToken (sessions st)) \<and> uuid \<notin> sessionToken ` set (sessions st) \<longrightarrow>
        distinct (map sessionToken (sessions (snd (createSession now uuid usr st))))
        \<and> (\<forall>old \<in> set (sessions st). s_studyId old = studyId usr \<longrightarrow>
             (\<forall>t. fst (validateSession t (snd (createSession now uuid usr st)) (sessionToken old))
                    = None))
        \<and> (\<forall>t. t \<le> now + SESSION_DURATION \<longrightarrow>
             fst (validateSession t (snd (createSession now uuid usr st)) uuid)
               = List.find (\<lambda>u. studyId u = studyId usr) (users st))
        \<and> (\<forall>t. t \<le> now + SESSION_DURATION \<and> (\<exists>u \<in> set (users st). studyId u = studyId usr) \<longrightarrow>
             (\<exists>u. fst (validateSession t (snd (createSession now uuid usr st)) uuid) = Some u
                  \<and> studyId u = studyId usr)))"
proof (intro conjI impI)
  show "filter (\<lambda>s. s_studyId s = studyId usr) (sessions (snd (createSession now uuid usr st)))
     = [fst (createSession now uuid usr st)]"
    by (simp add: createSession_snd) (simp add: createSession_fst)
  show "filter (\<lambda>s. s_studyId s \<noteq> studyId usr) (sessions (snd (createSession now uuid usr st)))
     = filter (\<lambda>s. s_studyId s \<noteq> studyId usr) (sessions st)"
    by (simp add: createSession_snd) (simp add: createSession_fst)
  show "fst (createSession now uuid usr st) =
       \<lparr>s_studyId = studyId usr, s_email = email usr, sessionToken = uuid,
        expiresAt = now + SESSION_DURATION\<rparr>"
    by (rule createSession_fst)
next
  assume "distinct (map s_studyId (sessions st))"
  then have "distinct (map s_studyId (filter (\<lambda>s. s_studyId s \<noteq> studyId usr) (sessions st)))"
    by (rule distinct_map_filter_keep)
  then show "distinct (map s_studyId (sessions (snd (createSession now uuid usr st))))"
    by (auto simp: createSession_snd createSession_fst)
next
  assume a: "distinct (map sessionToken (sessions st)) \<and> uuid \<notin> sessionToken ` set (sessions st)"
  then have "distinct (map sessionToken (filter (\<lambda>s. s_studyId s \<noteq> studyId usr) (sessions st)))"
    by (simp add: distinct_map_filter_keep)
  with a show "distinct (map sessionToken (sessions (snd (createSession now uuid usr st))))"
    by (auto simp: createSession_snd createSession_fst)
  show "\<forall>old \<in> set (sessions st). s_studyId old = studyId usr \<longrightarrow>
             (\<forall>t. fst (validateSession t (snd (createSession now uuid usr st)) (sessionToken old))
                    = None)"
    using a by (simp add: createSession_old_token_lookup validateSession_absent)
  have l: "session_of (snd (createSession now uuid usr st)) uuid = Some (fst (createSession now uuid usr st))"
    using a by (simp add: createSession_new_token_lookup)
  have v: "fst (validateSession t (snd (createSession now uuid usr st)) uuid)
               = List.find (\<lambda>u. studyId u = studyId usr) (users st)"
    if "t \<le> now + SESSION_DURATION" for t
    using that validateSession_live [OF l, of t]
    by (simp add: createSession_fst) (simp add: createSession_snd)
  show "\<forall>t. t \<le> now + SESSION_DURATION \<longrightarrow>
             fst (validateSession t (snd (createSession now uuid usr st)) uuid)
               = List.find (\<lambda>u. studyId u = studyId usr) (users st)"
    using v by simp
  show "\<forall>t. t \<le> now + SESSION_DURATION \<and> (\<exists>u \<in> set (users st). studyId u = studyId usr) \<longrightarrow>
             (\<exists>u. fst (validateSession t (snd (createSession now uuid usr st)) uuid) = Some u
                  \<and> studyId u = studyId usr)"
  proof (intro allI impI)
    fix t assume b: "t \<le> now + SESSION_DURATION \<and> (\<exists>u \<in> set (users st). studyId u = studyId usr)"
    then have "List.find (\<lambda>u. studyId u = studyId usr) (users st) \<noteq> None"
      by (auto simp: find_None_iff)
    then obtain y where y: "List.find (\<lambda>u. studyId u = studyId usr) (users st) = Some y" by auto
    from find_Some_mem [OF y] y b v show "\<exists>u. fst (validateSession t (snd (createSession now uuid usr st)) uuid) = Some u
                  \<and> studyId u = studyId usr" by simp
  qed
qed

text \<open>
  Ana's token \<open>tok-a\<close> validates; after a new session with token \<open>tok-b\<close> is issued for
  her, \<open>tok-a\<close> fails, \<open>tok-b\<close> validates, and the collection holds one session.
\<close>

theorem createSession_single_active_session_witness:
  "fst (validateSession 500 session_store ''tok-a'') = Some ana
   \<and> fst (validateSession 500 (snd (createSession 400 ''tok-b'' ana session_store)) ''tok-a'') = None
   \<and> fst (validateSession 500 (snd (createSession 400 ''tok-b'' ana session_store)) ''tok-b'') = Some ana
   \<and> length (sessions (snd (createSession 400 ''tok-b'' ana session_store))) = 1"
proof -
  have v: "fst (validateSession 500 session_store ''tok-a'') = Some ana" by code_simp
  have h1: "distinct (map sessionToken (sessions session_store))
      \<and> ''tok-b'' \<notin> sessionToken ` set (sessions session_store)"
    by (simp add: session_store_def ana_session_def)
  have h2: "ana_session \<in> set (sessions session_store) \<and> s_studyId ana_session = studyId ana"
    by (simp add: session_store_def ana_session_def ana_def)
  have h3: "(500::int) \<le> 400 + SESSION_DURATION" by (simp add: SESSION_DURATION_def)
  have h4: "List.find (\<lambda>u. studyId u = studyId ana) (users session_store) = Some ana"
    by code_simp
  have h5: "sessionToken ana_session = ''tok-a''" by (simp add: ana_session_def)
  have h6: "filter (\<lambda>s. s_studyId s \<noteq> studyId ana) (sessions session_store) = []"
    by (simp add: session_store_def ana_session_def ana_def)
  note T = createSession_single_active_session [of ana 400 "''tok-b''" session_store]
  from T h1 h2 h5 have 1:
    "fst (validateSession 500 (snd (createSession 400 ''tok-b'' ana session_store)) ''tok-a'') = None"
    by fastforce
  from T h1 h3 h4 have 2:
    "fst (validateSession 500 (snd (createSession 400 ''tok-b'' ana session_store)) ''tok-b'') = Some ana"
    by simp
  have 3: "length (sessions (snd (createSession 400 ''tok-b'' ana session_store))) = 1"
    by (simp add: createSession_snd h6)
  from v 1 2 3 show ?thesis by simp
qed

subsection \<open>Login and lockout\<close>

lemma find_update_first_const:
  "List.find p xs = Some x \<Longrightarrow> p y \<Longrightarrow> List.find p (update_first p (\<lambda>_. y) xs) = Some y"
  by (induction xs) (auto split: if_splits)

lemma find_update_first:
  "List.find p xs = Some x \<Longrightarrow> p (f x) \<Longrightarrow> List.find p (update_first p f xs) = Some (f x)"
  by (induction xs) (auto split: if_splits)

lemma set_update_first:
  "List.find p xs = Some x \<Longrightarrow> set (update_first p f xs) \<subseteq> insert (f x) (set xs)"
  by (induction xs) (auto split: if_splits)

lemma users_logSecurityEvent [simp]: "users (logSecurityEvent now ev i st) = users st"
  by (simp add: logSecurityEvent_def Let_def)

lemma users_sendSecurityAlert [simp]: "users (sendSecurityAlert e n st) = users st"
  by (simp add: sendSecurityAlert_def)

lemma sessions_logSecurityEvent [simp]: "sessions (logSecurityEvent now ev i st) = sessions st"
  by (simp add: logSecurityEvent_def Let_def)

lemma sessions_sendSecurityAlert [simp]: "sessions (sendSecurityAlert e n st) = sessions st"
  by (simp add: sendSecurityAlert_def)


lemma login_user_of_mem: "login_user_of L st i = Some u \<Longrightarrow> u \<in> set (users st)"
  unfolding login_user_of_def by (drule find_Some_mem) simp

lemma loginUser_unknown:
  "login_user_of L st i = None \<Longrightarrow>
     loginUser L c uuid st i pw =
       (\<lparr>l_success = False, l_user = None,
         l_error = Some ''Invalid credentials. Please check your Study ID/Email and password.'',
         l_locked = None, l_sessionToken = None\<rparr>,
        logSecurityEvent (event_log c) ''INVALID_CREDENTIALS'' (sanitizeInput L (toLowerCase i)) st)"
  by (simp add: loginUser_def login_user_of_def Let_def)

lemma loginUser_locked:
  "login_user_of L st i = Some u \<Longrightarrow> lockedUntil u = Some until \<Longrightarrow> lock_test c < until \<Longrightarrow>
     loginUser L c uuid st i pw =
       (\<lparr>l_success = False, l_user = None,
         l_error = Some
           (''Account temporarily locked due to multiple failed attempts. Try again in ''
              @ show_int (lockTimeRemaining (lock_message c) until) @ '' minutes.''),
         l_locked = Some True, l_sessionToken = None\<rparr>,
        st)"
  by (simp add: loginUser_def login_user_of_def Let_def locked_until_def)

lemma loginUser_wrong_password:
  assumes u: "login_user_of L st i = Some u"
    and l: "locked_until (lock_test c) u = None"
    and w: "\<not> bcrypt_compare L pw (passwordHash u)"
  shows "fst (loginUser L c uuid st i pw) =
           \<lparr>l_success = False, l_user = None,
            l_error = Some
              (''Invalid password. '' @ show_int (3 - (failedAttempts u + 1))
                 @ '' attempts remaining before account lock.''),
            l_locked = None, l_sessionToken = None\<rparr>"
    and "users (snd (loginUser L c uuid st i pw)) =
           update_first (matches_login (sanitizeInput L (toLowerCase i)))
             (\<lambda>_. failed_user (lock_set c) u) (users st)"
    and "login_user_of L (snd (loginUser L c uuid st i pw)) i = Some (failed_user (lock_set c) u)"
    and "sessions (snd (loginUser L c uuid st i pw)) = sessions st"
proof -
  let ?p = "matches_login (sanitizeInput L (toLowerCase i))"
  have f: "List.find ?p (users st) = Some u"
    using u by (simp add: login_user_of_def)
  show "fst (loginUser L c uuid st i pw) =
           \<lparr>l_success = False, l_user = None,
            l_error = Some
              (''Invalid password. '' @ show_int (3 - (failedAttempts u + 1))
                 @ '' attempts remaining before account lock.''),
            l_locked = None, l_sessionToken = None\<rparr>"
    using f l w
    by (simp add: loginUser_def Let_def MAX_FAILED_ATTEMPTS_def)
  show 2: "users (snd (loginUser L c uuid st i pw)) =
           update_first ?p (\<lambda>_. failed_user (lock_set c) u) (users st)"
    using f l w
    by (simp add: loginUser_def Let_def failed_user_def)
  have "?p u" using find_Some_mem [OF f] by simp
  then have "?p (failed_user (lock_set c) u)"
    by (simp add: failed_user_def matches_login_def)
  with f show "login_user_of L (snd (loginUser L c uuid st i pw)) i
      = Some (failed_user (lock_set c) u)"
    by (simp add: login_user_of_def 2 find_update_first_const)
  show "sessions (snd (loginUser L c uuid st i pw)) = sessions st"
    using f l w
    by (simp add: loginUser_def Let_def)
qed

lemma loginUser_correct_password:
  assumes u: "login_user_of L st i = Some u"
    and l: "locked_until (lock_test c) u = None"
    and w: "bcrypt_compare L pw (passwordHash u)"
  shows "fst (loginUser L c uuid st i pw) =
           \<lparr>l_success = True, l_user = Some (logged_in_user (last_login c) u), l_error = None,
            l_locked = None, l_sessionToken = Some uuid\<rparr>"
    and "users (snd (loginUser L c uuid st i pw)) =
           update_first (matches_login (sanitizeInput L (toLowerCase i)))
             (\<lambda>_. logged_in_user (last_login c) u) (users st)"
    and "login_user_of L (snd (loginUser L c uuid st i pw)) i
           = Some (logged_in_user (last_login c) u)"
proof -
  let ?p = "matches_login (sanitizeInput L (toLowerCase i))"
  have f: "List.find ?p (users st) = Some u"
    using u by (simp add: login_user_of_def)
  show "fst (loginUser L c uuid st i pw) =
           \<lparr>l_success = True, l_user = Some (logged_in_user (last_login c) u), l_error = None,
            l_locked = None, l_sessionToken = Some uuid\<rparr>"
    using f l w
    by (simp add: loginUser_def Let_def createSession_def logged_in_user_def)
  show 2: "users (snd (loginUser L c uuid st i pw)) =
           update_first ?p (\<lambda>_. logged_in_user (last_login c) u) (users st)"
    using f l w
    by (simp add: loginUser_def Let_def createSession_def logged_in_user_def)
  have "?p u" using find_Some_mem [OF f] by simp
  then have "?p (logged_in_user (last_login c) u)"
    by (simp add: logged_in_user_def matches_login_def)
  with f show "login_user_of L (snd (loginUser L c uuid st i pw)) i
      = Some (logged_in_user (last_login c) u)"
    by (simp add: login_user_of_def 2 find_update_first_const)
qed



lemma three_failures_lock:
  assumes u: "login_user_of L st i = Some u"
    and z: "failedAttempts u = 0" "lockedUntil u = None"
    and w: "\<not> bcrypt_compare L p1 (passwordHash u)" "\<not> bcrypt_compare L p2 (passwordHash u)"
      "\<not> bcrypt_compare L p3 (passwordHash u)"
  shows "login_user_of L (snd (loginUser L c1 k1 st i p1)) i = Some (u\<lparr>failedAttempts := 1\<rparr>)"
    and "login_user_of L (snd (loginUser L c2 k2 (snd (loginUser L c1 k1 st i p1)) i p2)) i
           = Some (u\<lparr>failedAttempts := 2\<rparr>)"
    and "login_user_of L
           (snd (loginUser L c3 k3
              (snd (loginUser L c2 k2 (snd (loginUser L c1 k1 st i p1)) i p2)) i p3)) i
           = Some (u\<lparr>failedAttempts := 3, lockedUntil := Some (lock_set c3 + 30 * 60 * 1000)\<rparr>)"
proof -
  let ?s1 = "snd (loginUser L c1 k1 st i p1)"
  let ?s2 = "snd (loginUser L c2 k2 ?s1 i p2)"
  let ?u1 = "u\<lparr>failedAttempts := 1\<rparr>"
  let ?u2 = "u\<lparr>failedAttempts := 2\<rparr>"
  have l0: "locked_until (lock_test c1) u = None" using z by (simp add: locked_until_def)
  have f1: "failed_user (lock_set c1) u = ?u1"
    using z by (simp add: failed_user_def MAX_FAILED_ATTEMPTS_def)
  show 1: "login_user_of L ?s1 i = Some ?u1"
    using loginUser_wrong_password(3) [OF u l0 w(1)] f1 by simp
  have l1: "locked_until (lock_test c2) ?u1 = None" using z by (simp add: locked_until_def)
  have w1: "\<not> bcrypt_compare L p2 (passwordHash ?u1)" using w by simp
  have f2: "failed_user (lock_set c2) ?u1 = ?u2"
    by (simp add: failed_user_def MAX_FAILED_ATTEMPTS_def)
  show 2: "login_user_of L ?s2 i = Some ?u2"
    using loginUser_wrong_password(3) [OF 1 l1 w1] f2 by simp
  have l2: "locked_until (lock_test c3) ?u2 = None" using z by (simp add: locked_until_def)
  have w2: "\<not> bcrypt_compare L p3 (passwordHash ?u2)" using w by simp
  have f3: "failed_user (lock_set c3) ?u2
      = u\<lparr>failedAttempts := 3, lockedUntil := Some (lock_set c3 + 30 * 60 * 1000)\<rparr>"
    by (simp add: failed_user_def MAX_FAILED_ATTEMPTS_def LOCK_DURATION_def)
  show "login_user_of L (snd (loginUser L c3 k3 ?s2 i p3)) i
           = Some (u\<lparr>failedAttempts := 3, lockedUntil := Some (lock_set c3 + 30 * 60 * 1000)\<rparr>)"
    using loginUser_wrong_password(3) [OF 2 l2 w2] f3 by simp
qed



lemma loginUser_users_cases:
  "users (snd (loginUser L c uuid st i pw)) = users st
   \<or> (\<exists>u. login_user_of L st i = Some u
        \<and> users (snd (loginUser L c uuid st i pw)) =
            update_first (matches_login (sanitizeInput L (toLowerCase i)))
              (\<lambda>_. failed_user (lock_set c) u) (users st))
   \<or> (\<exists>u. login_user_of L st i = Some u
        \<and> users (snd (loginUser L c uuid st i pw)) =
            update_first (matches_login (sanitizeInput L (toLowerCase i)))
              (\<lambda>_. logged_in_user (last_login c) u) (users st))"
proof (cases "login_user_of L st i")
  case None
  then show ?thesis by (simp add: loginUser_unknown)
next
  case (Some u)
  show ?thesis
  proof (cases "locked_until (lock_test c) u")
    case (Some m)
    then obtain until where "lockedUntil u = Some until" "lock_test c < until"
      by (auto simp: locked_until_def split: option.splits if_splits)
    with \<open>login_user_of L st i = Some u\<close> show ?thesis
      by (simp add: loginUser_locked)
  next
    case None
    show ?thesis
    proof (cases "bcrypt_compare L pw (passwordHash u)")
      case True
      from loginUser_correct_password(2) [OF \<open>login_user_of L st i = Some u\<close> None True]
        \<open>login_user_of L st i = Some u\<close>
      show ?thesis by simp
    next
      case False
      from loginUser_wrong_password(2) [OF \<open>login_user_of L st i = Some u\<close> None False]
        \<open>login_user_of L st i = Some u\<close>
      show ?thesis by simp
    qed
  qed
qed

lemma lock_inv_update_first:
  assumes "lock_inv st" and "List.find p (users st) = Some x"
    and "lockedUntil (f x) \<noteq> None \<longrightarrow> 3 \<le> failedAttempts (f x)"
    and "users st' = update_first p f (users st)"
  shows "lock_inv st'"
  using assms set_update_first [of p "users st" x f]
  unfolding lock_inv_def by auto

lemma failed_user_lock_inv:
  "lockedUntil u \<noteq> None \<longrightarrow> 3 \<le> failedAttempts u \<Longrightarrow>
     lockedUntil (failed_user now u) \<noteq> None \<longrightarrow> 3 \<le> failedAttempts (failed_user now u)"
  by (auto simp: failed_user_def MAX_FAILED_ATTEMPTS_def)

lemma loginUser_lock_inv:
  assumes inv: "lock_inv st"
  shows "lock_inv (snd (loginUser L c uuid st i pw))"
proof -
  let ?p = "matches_login (sanitizeInput L (toLowerCase i))"
  let ?st' = "snd (loginUser L c uuid st i pw)"
  from loginUser_users_cases [of L c uuid st i pw]
  consider (same) "users ?st' = users st"
    | (failed) u where "login_user_of L st i = Some u"
        "users ?st' = update_first ?p (\<lambda>_. failed_user (lock_set c) u) (users st)"
    | (ok) u where "login_user_of L st i = Some u"
        "users ?st' = update_first ?p (\<lambda>_. logged_in_user (last_login c) u) (users st)"
    by blast
  then show ?thesis
  proof cases
    case same
    with inv show ?thesis by (simp add: lock_inv_def)
  next
    case (failed u)
    from failed(1) have f: "List.find ?p (users st) = Some u"
      by (simp add: login_user_of_def)
    from login_user_of_mem [OF failed(1)] inv
    have "lockedUntil u \<noteq> None \<longrightarrow> 3 \<le> failedAttempts u"
      by (simp add: lock_inv_def)
    then have "lockedUntil (failed_user (lock_set c) u) \<noteq> None
        \<longrightarrow> 3 \<le> failedAttempts (failed_user (lock_set c) u)"
      by (rule failed_user_lock_inv)
    then show ?thesis
      by (rule lock_inv_update_first [OF inv f _ failed(2)])
  next
    case (ok u)
    from ok(1) have f: "List.find ?p (users st) = Some u"
      by (simp add: login_user_of_def)
    have "lockedUntil (logged_in_user (last_login c) u) \<noteq> None
        \<longrightarrow> 3 \<le> failedAttempts (logged_in_user (last_login c) u)"
      by (simp add: logged_in_user_def)
    then show ?thesis
      by (rule lock_inv_update_first [OF inv f _ ok(2)])
  qed
qed

lemma relock_after_expiry:
  assumes u: "login_user_of L st i = Some u"
    and l: "lockedUntil u = Some until" "until \<le> lock_test c"
    and n: "3 \<le> failedAttempts u"
    and w: "\<not> bcrypt_compare L pw (passwordHash u)"
  shows "login_user_of L (snd (loginUser L c uuid st i pw)) i =
           Some (u\<lparr>failedAttempts := failedAttempts u + 1,
                   lockedUntil := Some (lock_set c + 30 * 60 * 1000)\<rparr>)"
    and "fst (loginUser L c uuid st i pw) =
           \<lparr>l_success = False, l_user = None,
            l_error = Some
              (''Invalid password. '' @ show_int (3 - (failedAttempts u + 1))
                 @ '' attempts remaining before account lock.''),
            l_locked = None, l_sessionToken = None\<rparr>"
proof -
  have r: "locked_until (lock_test c) u = None" using l by (simp add: locked_until_def)
  have f: "failed_user (lock_set c) u =
      u\<lparr>failedAttempts := failedAttempts u + 1,
        lockedUntil := Some (lock_set c + 30 * 60 * 1000)\<rparr>"
    using n by (simp add: failed_user_def MAX_FAILED_ATTEMPTS_def LOCK_DURATION_def)
  show "login_user_of L (snd (loginUser L c uuid st i pw)) i =
           Some (u\<lparr>failedAttempts := failedAttempts u + 1,
                   lockedUntil := Some (lock_set c + 30 * 60 * 1000)\<rparr>)"
    using loginUser_wrong_password(3) [OF u r w] f by simp
  show "fst (loginUser L c uuid st i pw) =
           \<lparr>l_success = False, l_user = None,
            l_error = Some
              (''Invalid password. '' @ show_int (3 - (failedAttempts u + 1))
                 @ '' attempts remaining before account lock.''),
            l_locked = None, l_sessionToken = None\<rparr>"
    by (rule loginUser_wrong_password(1) [OF u r w])
qed

text \<open>
  C10. The expiry of a lock does not reset the counter. \<open>loginUser\<close> keeps the invariant
  that a record with a lock expiry has at least three failed attempts, and a login during
  the lock leaves the store as it is. So when the lock of the record has expired and the
  password is wrong, the counter is still at least 3; the attempt adds one to it and sets
  a new lock expiry 30 minutes from its clock reading, and every login whose lock check
  is before that new expiry is refused as locked. Starting with no failed attempt: three
  wrong passwords lock the record, and a fourth one after the lock has expired brings the
  counter to 4 and locks the record again, for 30 minutes from that attempt.
\<close>

theorem lock_expiry_keeps_failure_counter:
  "(lock_inv st \<longrightarrow> lock_inv (snd (loginUser L c uuid st i pw)))
   \<and> (login_user_of L st i = Some u \<and> lockedUntil u = Some until \<and> lock_test c < until \<longrightarrow>
        snd (loginUser L c uuid st i pw) = st)
   \<and> (lock_inv st \<and> login_user_of L st i = Some u \<and> lockedUntil u = Some until
        \<and> until \<le> lock_test c \<and> \<not> bcrypt_compare L pw (passwordHash u) \<longrightarrow>
        3 \<le> failedAttempts u
        \<and> fst (loginUser L c uuid st i pw) =
            \<lparr>l_success = False, l_user = None,
             l_error = Some
               (''Invalid password. '' @ show_int (3 - (failedAttempts u + 1))
                  @ '' attempts remaining before account lock.''),
             l_locked = None, l_sessionToken = None\<rparr>
        \<and> login_user_of L (snd (loginUser L c uuid st i pw)) i =
            Some (u\<lparr>failedAttempts := failedAttempts u + 1,
                    lockedUntil := Some (lock_set c + 30 * 60 * 1000)\<rparr>)
        \<and> (\<forall>c' k p. lock_test c' < lock_set c + 30 * 60 * 1000 \<longrightarrow>
              loginUser L c' k (snd (loginUser L c uuid st i pw)) i p =
                (\<lparr>l_success = False, l_user = None,
                  l_error = Some
                    (''Account temporarily locked due to multiple failed attempts. Try again in ''
                       @ show_int (lockTimeRemaining (lock_message c')
                                     (lock_set c + 30 * 60 * 1000))
                       @ '' minutes.''),
                  l_locked = Some True, l_sessionToken = None\<rparr>,
                 snd (loginUser L c uuid st i pw))))
   \<and> (login_user_of L st i = Some v \<and> failedAttempts v = 0 \<and> lockedUntil v = None
        \<and> \<not> bcrypt_compare L p1 (passwordHash v) \<and> \<not> bcrypt_compare L p2 (passwordHash v)
        \<and> \<not> bcrypt_compare L p3 (passwordHash v) \<and> \<not> bcrypt_compare L p4 (passwordHash v)
        \<and> lock_set c3 + 30 * 60 * 1000 \<le> lock_test c4 \<longrightarrow>
        login_user_of L
          (snd (loginUser L c4 k4
             (snd (loginUser L c3 k3
                (snd (loginUser L c2 k2 (snd (loginUser L c1 k1 st i p1)) i p2)) i p3)) i p4)) i
          = Some (v\<lparr>failedAttempts := 4, lockedUntil := Some (lock_set c4 + 30 * 60 * 1000)\<rparr>))"
proof (intro conjI impI)
  assume "lock_inv st"
  then show "lock_inv (snd (loginUser L c uuid st i pw))"
    by (rule loginUser_lock_inv)
next
  assume "login_user_of L st i = Some u \<and> lockedUntil u = Some until \<and> lock_test c < until"
  then show "snd (loginUser L c uuid st i pw) = st"
    by (simp add: loginUser_locked)
next
  assume a: "lock_inv st \<and> login_user_of L st i = Some u \<and> lockedUntil u = Some until
        \<and> until \<le> lock_test c \<and> \<not> bcrypt_compare L pw (passwordHash u)"
  then have h: "login_user_of L st i = Some u" "lockedUntil u = Some until"
      "until \<le> lock_test c"
    and w: "\<not> bcrypt_compare L pw (passwordHash u)" and inv: "lock_inv st"
    by simp_all
  from login_user_of_mem [OF h(1)] inv h(2) show n: "3 \<le> failedAttempts u"
    by (auto simp: lock_inv_def)
  show "fst (loginUser L c uuid st i pw) =
            \<lparr>l_success = False, l_user = None,
             l_error = Some
               (''Invalid password. '' @ show_int (3 - (failedAttempts u + 1))
                  @ '' attempts remaining before account lock.''),
             l_locked = None, l_sessionToken = None\<rparr>"
    by (rule relock_after_expiry(2) [OF h n w])
  show r: "login_user_of L (snd (loginUser L c uuid st i pw)) i =
            Some (u\<lparr>failedAttempts := failedAttempts u + 1,
                    lockedUntil := Some (lock_set c + 30 * 60 * 1000)\<rparr>)"
    by (rule relock_after_expiry(1) [OF h n w])
  show "\<forall>c' k p. lock_test c' < lock_set c + 30 * 60 * 1000 \<longrightarrow>
              loginUser L c' k (snd (loginUser L c uuid st i pw)) i p =
                (\<lparr>l_success = False, l_user = None,
                  l_error = Some
                    (''Account temporarily locked due to multiple failed attempts. Try again in ''
                       @ show_int (lockTimeRemaining (lock_message c')
                                     (lock_set c + 30 * 60 * 1000))
                       @ '' minutes.''),
                  l_locked = Some True, l_sessionToken = None\<rparr>,
                 snd (loginUser L c uuid st i pw))"
    using loginUser_locked [OF r] by simp
next
  assume a: "login_user_of L st i = Some v \<and> failedAttempts v = 0 \<and> lockedUntil v = None
        \<and> \<not> bcrypt_compare L p1 (passwordHash v) \<and> \<not> bcrypt_compare L p2 (passwordHash v)
        \<and> \<not> bcrypt_compare L p3 (passwordHash v) \<and> \<not> bcrypt_compare L p4 (passwordHash v)
        \<and> lock_set c3 + 30 * 60 * 1000 \<le> lock_test c4"
  let ?s3 = "snd (loginUser L c3 k3
                (snd (loginUser L c2 k2 (snd (loginUser L c1 k1 st i p1)) i p2)) i p3)"
  let ?v3 = "v\<lparr>failedAttempts := 3, lockedUntil := Some (lock_set c3 + 30 * 60 * 1000)\<rparr>"
  from a have h: "login_user_of L st i = Some v" "failedAttempts v = 0" "lockedUntil v = None"
    "\<not> bcrypt_compare L p1 (passwordHash v)" "\<not> bcrypt_compare L p2 (passwordHash v)"
    "\<not> bcrypt_compare L p3 (passwordHash v)"
    by simp_all
  have 3: "login_user_of L ?s3 i = Some ?v3"
    by (rule three_failures_lock(3) [OF h])
  have l: "lockedUntil ?v3 = Some (lock_set c3 + 30 * 60 * 1000)" by simp
  have e: "lock_set c3 + 30 * 60 * 1000 \<le> lock_test c4" using a by simp
  have n: "3 \<le> failedAttempts ?v3" by simp
  have w: "\<not> bcrypt_compare L p4 (passwordHash ?v3)" using a by simp
  from relock_after_expiry(1) [OF 3 l e n w, of k4]
  show "login_user_of L (snd (loginUser L c4 k4 ?s3 i p4)) i
          = Some (v\<lparr>failedAttempts := 4, lockedUntil := Some (lock_set c4 + 30 * 60 * 1000)\<rparr>)"
    by simp
qed

text \<open>
  Ana's lock ends at 1803000 with the counter at 3. An attempt just before leaves the
  store as it is. One wrong password at 1803000 brings the counter to 4 and locks her
  until 3603000; so does a fourth wrong password after three at 1000, 2000 and 3000.
\<close>

theorem lock_expiry_keeps_failure_counter_witness:
  "lock_inv locked_store
   \<and> failedAttempts locked_ana = 3
   \<and> snd (loginUser demo_lib (ticking_clock 1802999 0) ''k'' locked_store ''ana@gmail.com''
       ''wrong'') = locked_store
   \<and> fst (loginUser demo_lib (ticking_clock 1803000 0) ''k'' locked_store ''ana@gmail.com''
       ''wrong'')
       = \<lparr>l_success = False, l_user = None,
          l_error = Some ''Invalid password. -1 attempts remaining before account lock.'',
          l_locked = None, l_sessionToken = None\<rparr>
   \<and> login_user_of demo_lib
       (snd (loginUser demo_lib (ticking_clock 1803000 0) ''k'' locked_store ''ana@gmail.com''
          ''wrong''))
       ''ana@gmail.com''
     = Some (locked_ana\<lparr>failedAttempts := 4, lockedUntil := Some 3603000\<rparr>)
   \<and> lock_inv (snd (loginUser demo_lib (ticking_clock 1803000 0) ''k'' locked_store
       ''ana@gmail.com'' ''wrong''))
   \<and> login_user_of demo_lib
       (snd (loginUser demo_lib (ticking_clock 1803000 0) ''k4''
          (snd (loginUser demo_lib (ticking_clock 3000 0) ''k3''
             (snd (loginUser demo_lib (ticking_clock 2000 0) ''k2''
                (snd (loginUser demo_lib (ticking_clock 1000 0) ''k1'' demo_store
                   ''ana@gmail.com'' ''wrong''))
                ''ana@gmail.com'' ''wrong''))
             ''ana@gmail.com'' ''wrong''))
          ''ana@gmail.com'' ''wrong''))
       ''ana@gmail.com''
     = Some (ana\<lparr>failedAttempts := 4, lockedUntil := Some 3603000\<rparr>)"
proof -
  have i: "lock_inv locked_store"
    by (simp add: lock_inv_def locked_store_def locked_ana_def ana_def bob_def demo_store_def)
  have h: "login_user_of demo_lib locked_store ''ana@gmail.com'' = Some locked_ana
      \<and> lockedUntil locked_ana = Some 1803000
      \<and> \<not> bcrypt_compare demo_lib ''wrong'' (passwordHash locked_ana)
      \<and> failedAttempts locked_ana = 3"
    by code_simp
  have g: "login_user_of demo_lib demo_store ''ana@gmail.com'' = Some ana
      \<and> failedAttempts ana = 0 \<and> lockedUntil ana = None
      \<and> \<not> bcrypt_compare demo_lib ''wrong'' (passwordHash ana)"
    by code_simp
  have k: "lock_test (ticking_clock 1802999 0) = 1802999
      \<and> lock_test (ticking_clock 1803000 0) = 1803000
      \<and> lock_set (ticking_clock 1803000 0) = 1803000
      \<and> lock_set (ticking_clock 3000 0) = 3000"
    by (simp add: ticking_clock_def)
  have m: "show_int (- 1) = ''-1''" by code_simp
  note A = lock_expiry_keeps_failure_counter
      [where L = demo_lib and st = locked_store and i = "''ana@gmail.com''" and u = locked_ana
        and until = 1803000 and c = "ticking_clock 1803000 0" and uuid = "''k''"
        and pw = "''wrong''",
        THEN conjunct1]
  note B = lock_expiry_keeps_failure_counter
      [where L = demo_lib and st = locked_store and i = "''ana@gmail.com''" and u = locked_ana
        and until = 1803000 and c = "ticking_clock 1802999 0" and uuid = "''k''"
        and pw = "''wrong''",
        THEN conjunct2, THEN conjunct1]
  note C = lock_expiry_keeps_failure_counter
      [where L = demo_lib and st = locked_store and i = "''ana@gmail.com''" and u = locked_ana
        and until = 1803000 and c = "ticking_clock 1803000 0" and uuid = "''k''"
        and pw = "''wrong''",
        THEN conjunct2, THEN conjunct2, THEN conjunct1]
  note D = lock_expiry_keeps_failure_counter
      [where L = demo_lib and st = demo_store and i = "''ana@gmail.com''" and v = ana
        and ?p1.0 = "''wrong''" and ?p2.0 = "''wrong''" and ?p3.0 = "''wrong''"
        and ?p4.0 = "''wrong''" and ?c1.0 = "ticking_clock 1000 0"
        and ?c2.0 = "ticking_clock 2000 0" and ?c3.0 = "ticking_clock 3000 0"
        and ?c4.0 = "ticking_clock 1803000 0" and ?k1.0 = "''k1''" and ?k2.0 = "''k2''"
        and ?k3.0 = "''k3''" and ?k4.0 = "''k4''",
        THEN conjunct2, THEN conjunct2, THEN conjunct2]
  from A i have 1: "lock_inv (snd (loginUser demo_lib (ticking_clock 1803000 0) ''k'' locked_store
       ''ana@gmail.com'' ''wrong''))"
    by simp
  from B h k have 2: "snd (loginUser demo_lib (ticking_clock 1802999 0) ''k'' locked_store
       ''ana@gmail.com'' ''wrong'') = locked_store"
    by simp
  from C i h k m have 3:
    "fst (loginUser demo_lib (ticking_clock 1803000 0) ''k'' locked_store ''ana@gmail.com''
       ''wrong'')
       = \<lparr>l_success = False, l_user = None,
          l_error = Some ''Invalid password. -1 attempts remaining before account lock.'',
          l_locked = None, l_sessionToken = None\<rparr>
     \<and> login_user_of demo_lib
       (snd (loginUser demo_lib (ticking_clock 1803000 0) ''k'' locked_store ''ana@gmail.com''
          ''wrong''))
       ''ana@gmail.com''
     = Some (locked_ana\<lparr>failedAttempts := 4, lockedUntil := Some 3603000\<rparr>)"
    by simp
  from D g k have 4: "login_user_of demo_lib
       (snd (loginUser demo_lib (ticking_clock 1803000 0) ''k4''
          (snd (loginUser demo_lib (ticking_clock 3000 0) ''k3''
             (snd (loginUser demo_lib (ticking_clock 2000 0) ''k2''
                (snd (loginUser demo_lib (ticking_clock 1000 0) ''k1'' demo_store
                   ''ana@gmail.com'' ''wrong''))
                ''ana@gmail.com'' ''wrong''))
             ''ana@gmail.com'' ''wrong''))
          ''ana@gmail.com'' ''wrong''))
       ''ana@gmail.com''
     = Some (ana\<lparr>failedAttempts := 4, lockedUntil := Some 3603000\<rparr>)"
    by simp
  from i h 1 2 3 4 show ?thesis by simp
qed

text \<open>
  C1, as amended. A login that fails because no record matches the identifier, and one
  that fails because the password is wrong for a record that is not locked, both return
  a failure with an error text and no user, locked flag or token. The texts differ: the
  first is the fixed invalid-credentials text, the second says that the password is
  invalid and how many attempts remain (3 minus the new counter). The two responses are
  never equal.
\<close>

theorem login_failures_distinguishable:
  "(login_user_of L st i = None \<longrightarrow>
      fst (loginUser L c uuid st i pw) =
        \<lparr>l_success = False, l_user = None,
         l_error = Some ''Invalid credentials. Please check your Study ID/Email and password.'',
         l_locked = None, l_sessionToken = None\<rparr>)
   \<and> (login_user_of L st i = Some u \<and> locked_until (lock_test c) u = None
        \<and> \<not> bcrypt_compare L pw (passwordHash u) \<longrightarrow>
      fst (loginUser L c uuid st i pw) =
        \<lparr>l_success = False, l_user = None,
         l_error = Some (''Invalid password. '' @ show_int (3 - (failedAttempts u + 1))
                          @ '' attempts remaining before account lock.''),
         l_locked = None, l_sessionToken = None\<rparr>)
   \<and> ''Invalid credentials. Please check your Study ID/Email and password.''
       \<noteq> ''Invalid password. '' @ show_int n @ '' attempts remaining before account lock.''"
proof (intro conjI impI)
  assume "login_user_of L st i = None"
  then show "fst (loginUser L c uuid st i pw) =
        \<lparr>l_success = False, l_user = None,
         l_error = Some ''Invalid credentials. Please check your Study ID/Email and password.'',
         l_locked = None, l_sessionToken = None\<rparr>"
    by (simp add: loginUser_unknown)
next
  assume a: "login_user_of L st i = Some u \<and> locked_until (lock_test c) u = None
        \<and> \<not> bcrypt_compare L pw (passwordHash u)"
  then have h: "login_user_of L st i = Some u" "locked_until (lock_test c) u = None"
    "\<not> bcrypt_compare L pw (passwordHash u)" by simp_all
  show "fst (loginUser L c uuid st i pw) =
        \<lparr>l_success = False, l_user = None,
         l_error = Some (''Invalid password. '' @ show_int (3 - (failedAttempts u + 1))
                          @ '' attempts remaining before account lock.''),
         l_locked = None, l_sessionToken = None\<rparr>"
    by (rule loginUser_wrong_password(1) [OF h])
next
  show "''Invalid credentials. Please check your Study ID/Email and password.''
       \<noteq> ''Invalid password. '' @ show_int n @ '' attempts remaining before account lock.''"
    by simp
qed

text \<open>
  C1 as stated fails: with the same wrong password, the response for an identifier with
  no record and the response for Ana's email, whose record is not locked, are different.
\<close>

theorem login_failures_identical_counterexample:
  "login_user_of demo_lib demo_store ''nobody@gmail.com'' = None
   \<and> login_user_of demo_lib demo_store ''ana@gmail.com'' = Some ana
   \<and> locked_until 1000 ana = None
   \<and> \<not> bcrypt_compare demo_lib ''wrong'' (passwordHash ana)
   \<and> fst (loginUser demo_lib (ticking_clock 1000 0) ''k'' demo_store ''nobody@gmail.com''
         ''wrong'')
       \<noteq> fst (loginUser demo_lib (ticking_clock 1000 0) ''k'' demo_store ''ana@gmail.com''
             ''wrong'')"
  by code_simp

text \<open>The two responses on the store of Ana and Bob.\<close>

theorem login_failures_distinguishable_witness:
  "fst (loginUser demo_lib (ticking_clock 1000 0) ''k'' demo_store ''nobody@gmail.com''
      ''wrong'') =
        \<lparr>l_success = False, l_user = None,
         l_error = Some ''Invalid credentials. Please check your Study ID/Email and password.'',
         l_locked = None, l_sessionToken = None\<rparr>
   \<and> fst (loginUser demo_lib (ticking_clock 1000 0) ''k'' demo_store ''ana@gmail.com''
      ''wrong'') =
        \<lparr>l_success = False, l_user = None,
         l_error = Some ''Invalid password. 2 attempts remaining before account lock.'',
         l_locked = None, l_sessionToken = None\<rparr>"
proof -
  have h: "login_user_of demo_lib demo_store ''nobody@gmail.com'' = None
      \<and> login_user_of demo_lib demo_store ''ana@gmail.com'' = Some ana
      \<and> locked_until (lock_test (ticking_clock 1000 0)) ana = None
      \<and> \<not> bcrypt_compare demo_lib ''wrong'' (passwordHash ana)
      \<and> failedAttempts ana = 0"
    by code_simp
  have s: "show_int 2 = ''2''" by code_simp
  note A = login_failures_distinguishable
      [where L = demo_lib and st = demo_store and i = "''nobody@gmail.com''"
        and c = "ticking_clock 1000 0" and uuid = "''k''" and pw = "''wrong''",
        THEN conjunct1]
  note B = login_failures_distinguishable
      [where L = demo_lib and st = demo_store and i = "''ana@gmail.com''"
        and c = "ticking_clock 1000 0" and uuid = "''k''" and pw = "''wrong''" and u = ana,
        THEN conjunct2, THEN conjunct1]
  from A B h s show ?thesis by simp
qed

subsection \<open>Password reset\<close>

lemma reset_user_of_mem: "reset_user_of L st em = Some u \<Longrightarrow> u \<in> set (users st)"
  unfolding reset_user_of_def by (drule find_Some_mem) simp

lemma initiatePasswordReset_fst:
  "fst (initiatePasswordReset L now uuid st em) =
     (if validateEmail L (sanitizeInput L (toLowerCase em)) then op_ok
      else op_failure ''Please enter a valid Gmail address'')"
  by (simp add: initiatePasswordReset_def Let_def split: option.splits)

text \<open>
  C2, as amended. The response of \<open>initiatePasswordReset\<close> depends on the email text
  alone: success with no error when the sanitized email passes \<open>validateEmail\<close>, the
  invalid-address failure when it does not. It is the same for any two stores, clock
  readings and tokens, so it does not tell whether a record with that email exists. When
  no record has the email, the store is unchanged.
\<close>

theorem initiatePasswordReset_response_ignores_store:
  "fst (initiatePasswordReset L now uuid st em) =
     (if validateEmail L (sanitizeInput L (toLowerCase em))
      then \<lparr>success = True, error = None\<rparr>
      else \<lparr>success = False, error = Some ''Please enter a valid Gmail address''\<rparr>)
   \<and> fst (initiatePasswordReset L now uuid st em) = fst (initiatePasswordReset L now' uuid' st' em)
   \<and> (reset_user_of L st em = None \<longrightarrow> snd (initiatePasswordReset L now uuid st em) = st)"
proof (intro conjI impI)
  show "fst (initiatePasswordReset L now uuid st em) =
     (if validateEmail L (sanitizeInput L (toLowerCase em))
      then \<lparr>success = True, error = None\<rparr>
      else \<lparr>success = False, error = Some ''Please enter a valid Gmail address''\<rparr>)"
    by (simp add: initiatePasswordReset_fst op_ok_def op_failure_def)
  show "fst (initiatePasswordReset L now uuid st em) = fst (initiatePasswordReset L now' uuid' st' em)"
    by (simp only: initiatePasswordReset_fst)
next
  assume "reset_user_of L st em = None"
  then show "snd (initiatePasswordReset L now uuid st em) = st"
    by (simp add: initiatePasswordReset_def Let_def reset_user_of_def)
qed

text \<open>
  C2 as stated fails: for an email that is not a gmail.com address the call does not
  return success.
\<close>

theorem initiatePasswordReset_always_succeeds_counterexample:
  "reset_user_of demo_lib demo_store ''bob@yahoo.com'' = None
   \<and> fst (initiatePasswordReset demo_lib 1000 ''k'' demo_store ''bob@yahoo.com'')
       = \<lparr>success = False, error = Some ''Please enter a valid Gmail address''\<rparr>"
  by code_simp

text \<open>Ana's email, which has a record, and an email without one get the same success.\<close>

theorem initiatePasswordReset_response_ignores_store_witness:
  "fst (initiatePasswordReset demo_lib 1000 ''k'' demo_store ''ana@gmail.com'')
     = \<lparr>success = True, error = None\<rparr>
   \<and> fst (initiatePasswordReset demo_lib 1000 ''k'' demo_store ''nobody@gmail.com'')
     = \<lparr>success = True, error = None\<rparr>
   \<and> snd (initiatePasswordReset demo_lib 1000 ''k'' demo_store ''nobody@gmail.com'') = demo_store"
proof -
  have v: "validateEmail demo_lib (sanitizeInput demo_lib (toLowerCase ''ana@gmail.com''))
      \<and> validateEmail demo_lib (sanitizeInput demo_lib (toLowerCase ''nobody@gmail.com''))"
    by code_simp
  have n: "reset_user_of demo_lib demo_store ''nobody@gmail.com'' = None"
    by code_simp
  from
    initiatePasswordReset_response_ignores_store
      [where L = demo_lib and now = 1000 and uuid = "''k''" and st = demo_store
         and em = "''ana@gmail.com''"]
    initiatePasswordReset_response_ignores_store
      [where L = demo_lib and now = 1000 and uuid = "''k''" and st = demo_store
         and em = "''nobody@gmail.com''"]
    v n
  show ?thesis by simp
qed

lemma resetPassword_weak:
  "\<not> isValid (validatePassword pw) \<Longrightarrow>
     resetPassword L now salt st em token pw =
       (op_failure (join ''. '' (errors (validatePassword pw))), st)"
  by (simp add: resetPassword_def Let_def)

lemma resetPassword_no_user:
  "isValid (validatePassword pw) \<Longrightarrow> reset_user_of L st em = None \<Longrightarrow>
     resetPassword L now salt st em token pw = (op_failure ''Invalid or expired reset token'', st)"
  by (simp add: resetPassword_def Let_def reset_user_of_def)

lemma resetPassword_rejected:
  "isValid (validatePassword pw) \<Longrightarrow> reset_user_of L st em = Some u \<Longrightarrow>
   ticket_rejected now token u \<Longrightarrow>
     resetPassword L now salt st em token pw = (op_failure ''Invalid or expired reset token'', st)"
  by (simp add: resetPassword_def Let_def reset_user_of_def)

lemma resetPassword_accepted:
  assumes v: "isValid (validatePassword pw)"
    and u: "reset_user_of L st em = Some u"
    and t: "\<not> ticket_rejected now token u"
  shows "fst (resetPassword L now salt st em token pw) = op_ok"
    and "users (snd (resetPassword L now salt st em token pw)) =
           update_first (\<lambda>x. email x = sanitizeInput L (toLowerCase em))
             (reset_user (bcrypt_hash L salt pw)) (users st)"
    and "reset_user_of L (snd (resetPassword L now salt st em token pw)) em =
           Some (reset_user (bcrypt_hash L salt pw) u)"
proof -
  let ?p = "\<lambda>x. email x = sanitizeInput L (toLowerCase em)"
  have f: "List.find ?p (users st) = Some u" using u by (simp add: reset_user_of_def)
  have r: "reset_user (bcrypt_hash L salt pw) =
      (\<lambda>u. u\<lparr>passwordHash := bcrypt_hash L salt pw, resetToken := None,
              resetTokenExpiry := None, failedAttempts := 0, lockedUntil := None\<rparr>)"
    by (rule ext) (simp add: reset_user_def)
  show "fst (resetPassword L now salt st em token pw) = op_ok"
    using v f t by (simp add: resetPassword_def Let_def)
  show 2: "users (snd (resetPassword L now salt st em token pw)) =
           update_first ?p (reset_user (bcrypt_hash L salt pw)) (users st)"
    using v f t by (simp add: resetPassword_def Let_def r)
  have "?p u" using find_Some_mem [OF f] by simp
  then have "?p (reset_user (bcrypt_hash L salt pw) u)" by (simp add: reset_user_def)
  with f show "reset_user_of L (snd (resetPassword L now salt st em token pw)) em =
           Some (reset_user (bcrypt_hash L salt pw) u)"
    by (simp add: reset_user_of_def 2 find_update_first)
qed

lemma ticket_rejected_iff:
  "ticket_rejected now token u =
     (resetToken u \<noteq> Some token \<or> resetTokenExpiry u = None
      \<or> (\<exists>e. resetTokenExpiry u = Some e \<and> now > e))"
  by (auto simp: ticket_rejected_def split: option.splits)

lemma resetPassword_success_iff:
  "success (fst (resetPassword L now salt st em token pw)) =
     (isValid (validatePassword pw)
      \<and> (\<exists>u. reset_user_of L st em = Some u \<and> \<not> ticket_rejected now token u))"
proof (cases "isValid (validatePassword pw)")
  case False
  then show ?thesis by (simp add: resetPassword_weak op_failure_def)
next
  case True
  show ?thesis
  proof (cases "reset_user_of L st em")
    case None
    with True show ?thesis by (simp add: resetPassword_no_user op_failure_def)
  next
    case (Some u)
    show ?thesis
    proof (cases "ticket_rejected now token u")
      case True
      with \<open>isValid (validatePassword pw)\<close> Some show ?thesis
        by (simp add: resetPassword_rejected op_failure_def)
    next
      case False
      with \<open>isValid (validatePassword pw)\<close> Some show ?thesis
        by (simp add: resetPassword_accepted(1) op_ok_def)
    qed
  qed
qed

lemma reset_user_ticket_rejected: "ticket_rejected now token (reset_user h u)"
  by (simp add: ticket_rejected_def reset_user_def)

text \<open>
  C5, as amended. After a successful \<open>resetPassword\<close> for an email and a token, the record
  of that email has the new hash, no reset token, no reset expiry, counter 0 and no lock;
  every later call with the same email and token fails and leaves the store as it is,
  with the invalid-or-expired-token error when its new password passes the policy. A call
  whose new password passes the policy fails with that error, store unchanged, when no
  record has the email, the stored token differs, the expiry is empty or the clock is
  past the expiry. A call whose new password breaks the policy fails first, with the
  policy's messages joined.
\<close>

theorem resetPassword_token_single_use:
  "(success (fst (resetPassword L now salt st em token pw)) \<and> reset_user_of L st em = Some u \<longrightarrow>
      reset_user_of L (snd (resetPassword L now salt st em token pw)) em =
        Some (u\<lparr>passwordHash := bcrypt_hash L salt pw, resetToken := None,
                resetTokenExpiry := None, failedAttempts := 0, lockedUntil := None\<rparr>)
      \<and> (\<forall>now' salt' pw'.
            success (fst (resetPassword L now' salt'
                       (snd (resetPassword L now salt st em token pw)) em token pw')) = False
            \<and> snd (resetPassword L now' salt'
                       (snd (resetPassword L now salt st em token pw)) em token pw')
                = snd (resetPassword L now salt st em token pw))
      \<and> (\<forall>now' salt' pw'. isValid (validatePassword pw') \<longrightarrow>
            fst (resetPassword L now' salt'
                   (snd (resetPassword L now salt st em token pw)) em token pw')
              = \<lparr>success = False, error = Some ''Invalid or expired reset token''\<rparr>))
   \<and> (isValid (validatePassword pw)
        \<and> (reset_user_of L st em = None
            \<or> (\<exists>v. reset_user_of L st em = Some v
                  \<and> (resetToken v \<noteq> Some token \<or> resetTokenExpiry v = None
                      \<or> (\<exists>e. resetTokenExpiry v = Some e \<and> now > e)))) \<longrightarrow>
      resetPassword L now salt st em token pw =
        (\<lparr>success = False, error = Some ''Invalid or expired reset token''\<rparr>, st))
   \<and> (\<not> isValid (validatePassword pw) \<longrightarrow>
      resetPassword L now salt st em token pw =
        (\<lparr>success = False, error = Some (join ''. '' (errors (validatePassword pw)))\<rparr>, st))"
proof (intro conjI impI)
  assume a: "success (fst (resetPassword L now salt st em token pw)) \<and> reset_user_of L st em = Some u"
  let ?st' = "snd (resetPassword L now salt st em token pw)"
  let ?u' = "reset_user (bcrypt_hash L salt pw) u"
  from a have v: "isValid (validatePassword pw)" and u: "reset_user_of L st em = Some u"
    and t: "\<not> ticket_rejected now token u"
    by (auto simp: resetPassword_success_iff)
  have n: "reset_user_of L ?st' em = Some ?u'"
    by (rule resetPassword_accepted(3) [OF v u t])
  then show "reset_user_of L ?st' em =
        Some (u\<lparr>passwordHash := bcrypt_hash L salt pw, resetToken := None,
                resetTokenExpiry := None, failedAttempts := 0, lockedUntil := None\<rparr>)"
    by (simp add: reset_user_def)
  have again: "resetPassword L now' salt' ?st' em token pw' =
      (if isValid (validatePassword pw') then op_failure ''Invalid or expired reset token''
       else op_failure (join ''. '' (errors (validatePassword pw'))), ?st')"
    for now' salt' pw'
  proof (cases "isValid (validatePassword pw')")
    case True
    have "ticket_rejected now' token ?u'" by (rule reset_user_ticket_rejected)
    from resetPassword_rejected [OF True n this] True show ?thesis by simp
  next
    case False
    from resetPassword_weak [OF False] False show ?thesis by simp
  qed
  show "\<forall>now' salt' pw'.
            success (fst (resetPassword L now' salt' ?st' em token pw')) = False
            \<and> snd (resetPassword L now' salt' ?st' em token pw') = ?st'"
    by (simp add: again op_failure_def)
  show "\<forall>now' salt' pw'. isValid (validatePassword pw') \<longrightarrow>
            fst (resetPassword L now' salt' ?st' em token pw')
              = \<lparr>success = False, error = Some ''Invalid or expired reset token''\<rparr>"
    by (simp add: again op_failure_def)
next
  assume a: "isValid (validatePassword pw)
        \<and> (reset_user_of L st em = None
            \<or> (\<exists>v. reset_user_of L st em = Some v
                  \<and> (resetToken v \<noteq> Some token \<or> resetTokenExpiry v = None
                      \<or> (\<exists>e. resetTokenExpiry v = Some e \<and> now > e))))"
  then have v: "isValid (validatePassword pw)" by simp
  from a consider "reset_user_of L st em = None"
    | v where "reset_user_of L st em = Some v" "ticket_rejected now token v"
    by (auto simp: ticket_rejected_iff)
  then show "resetPassword L now salt st em token pw =
        (\<lparr>success = False, error = Some ''Invalid or expired reset token''\<rparr>, st)"
  proof cases
    case 1
    with v show ?thesis by (simp add: resetPassword_no_user op_failure_def)
  next
    case 2
    with v show ?thesis by (simp add: resetPassword_rejected op_failure_def)
  qed
next
  assume "\<not> isValid (validatePassword pw)"
  then show "resetPassword L now salt st em token pw =
        (\<lparr>success = False, error = Some (join ''. '' (errors (validatePassword pw)))\<rparr>, st)"
    by (simp add: resetPassword_weak op_failure_def)
qed

text \<open>
  C5 as stated fails: with no record for the email and the new password \<open>abc\<close>, the
  error is the list of the broken password rules, not the invalid-or-expired-token error.
\<close>

theorem resetPassword_token_error_counterexample:
  "reset_user_of demo_lib demo_store ''nobody@gmail.com'' = None
   \<and> fst (resetPassword demo_lib 1000 ''s'' demo_store ''nobody@gmail.com'' ''r-1'' ''abc'')
       \<noteq> \<lparr>success = False, error = Some ''Invalid or expired reset token''\<rparr>
   \<and> error (fst (resetPassword demo_lib 1000 ''s'' demo_store ''nobody@gmail.com'' ''r-1'' ''abc''))
       = Some (''Password must be at least 8 characters long. ''
            @ ''Password must contain at least one uppercase letter. ''
            @ ''Password must contain at least one number. ''
            @ ''Password must contain at least one special character'')"
  by code_simp

text \<open>
  Ana holds the ticket \<open>r-1\<close> until 5000. The reset at 4000 succeeds and clears the
  ticket, the counter and the lock; the same token is refused afterwards; at 6000 the
  ticket is expired; a password without an uppercase letter is refused first.
\<close>

theorem resetPassword_token_single_use_witness:
  "success (fst (resetPassword demo_lib 4000 ''s2'' ticket_store ''ana@gmail.com'' ''r-1'' ''Newpass1!''))
   \<and> reset_user_of demo_lib
        (snd (resetPassword demo_lib 4000 ''s2'' ticket_store ''ana@gmail.com'' ''r-1'' ''Newpass1!''))
        ''ana@gmail.com''
      = Some (ticket_ana\<lparr>passwordHash := ''s2$Newpass1!'', resetToken := None,
                resetTokenExpiry := None, failedAttempts := 0, lockedUntil := None\<rparr>)
   \<and> fst (resetPassword demo_lib 4500 ''s3''
        (snd (resetPassword demo_lib 4000 ''s2'' ticket_store ''ana@gmail.com'' ''r-1'' ''Newpass1!''))
        ''ana@gmail.com'' ''r-1'' ''Other9?pw'')
      = \<lparr>success = False, error = Some ''Invalid or expired reset token''\<rparr>
   \<and> resetPassword demo_lib 6000 ''s2'' ticket_store ''ana@gmail.com'' ''r-1'' ''Newpass1!''
      = (\<lparr>success = False, error = Some ''Invalid or expired reset token''\<rparr>, ticket_store)
   \<and> resetPassword demo_lib 4000 ''s2'' ticket_store ''ana@gmail.com'' ''r-1'' ''abcdefgh1!''
      = (\<lparr>success = False,
          error = Some ''Password must contain at least one uppercase letter''\<rparr>, ticket_store)"
proof -
  have h1: "success (fst (resetPassword demo_lib 4000 ''s2'' ticket_store ''ana@gmail.com'' ''r-1'' ''Newpass1!''))
      \<and> reset_user_of demo_lib ticket_store ''ana@gmail.com'' = Some ticket_ana"
    by code_simp
  have h2: "isValid (validatePassword ''Other9?pw'') \<and> isValid (validatePassword ''Newpass1!'')
      \<and> \<not> isValid (validatePassword ''abcdefgh1!'')"
    by code_simp
  have h3: "resetTokenExpiry ticket_ana = Some 5000 \<and> bcrypt_hash demo_lib ''s2'' ''Newpass1!'' = ''s2$Newpass1!''"
    by code_simp
  have h4: "join ''. '' (errors (validatePassword ''abcdefgh1!''))
      = ''Password must contain at least one uppercase letter''"
    by code_simp
  note A = resetPassword_token_single_use [where L = demo_lib and st = ticket_store and em = "''ana@gmail.com''" and now = 4000
        and salt = "''s2''" and token = "''r-1''" and pw = "''Newpass1!''" and u = ticket_ana,
        THEN conjunct1]
  note B = resetPassword_token_single_use [where L = demo_lib and st = ticket_store and em = "''ana@gmail.com''" and now = 6000
        and salt = "''s2''" and token = "''r-1''" and pw = "''Newpass1!''",
        THEN conjunct2, THEN conjunct1]
  note C = resetPassword_token_single_use [where L = demo_lib and st = ticket_store and em = "''ana@gmail.com''" and now = 4000
        and salt = "''s2''" and token = "''r-1''" and pw = "''abcdefgh1!''",
        THEN conjunct2, THEN conjunct2]
  from A h1 h3 have 1: "reset_user_of demo_lib
        (snd (resetPassword demo_lib 4000 ''s2'' ticket_store ''ana@gmail.com'' ''r-1'' ''Newpass1!''))
        ''ana@gmail.com''
      = Some (ticket_ana\<lparr>passwordHash := ''s2$Newpass1!'', resetToken := None,
                resetTokenExpiry := None, failedAttempts := 0, lockedUntil := None\<rparr>)"
    by simp
  from A h1 h2 have 2: "fst (resetPassword demo_lib 4500 ''s3''
        (snd (resetPassword demo_lib 4000 ''s2'' ticket_store ''ana@gmail.com'' ''r-1'' ''Newpass1!''))
        ''ana@gmail.com'' ''r-1'' ''Other9?pw'')
      = \<lparr>success = False, error = Some ''Invalid or expired reset token''\<rparr>"
    by simp
  from B h1 h2 h3 have 3: "resetPassword demo_lib 6000 ''s2'' ticket_store ''ana@gmail.com'' ''r-1'' ''Newpass1!''
      = (\<lparr>success = False, error = Some ''Invalid or expired reset token''\<rparr>, ticket_store)"
    by simp
  from C h2 h4 have 4: "resetPassword demo_lib 4000 ''s2'' ticket_store ''ana@gmail.com'' ''r-1'' ''abcdefgh1!''
      = (\<lparr>success = False,
          error = Some ''Password must contain at least one uppercase letter''\<rparr>, ticket_store)"
    by simp
  from h1 1 2 3 4 show ?thesis by simp
qed

subsection \<open>The lock invariant under the other operations\<close>

text \<open>
  Registration stores a record without a lock, a reset request leaves the lock and the
  counter as they are, and a completed reset clears both: each keeps the invariant that
  \<open>loginUser\<close> keeps.
\<close>

lemma registerUser_lock_inv:
  "lock_inv st \<Longrightarrow> lock_inv (snd (registerUser L now now2 salt uuid st em pw name cid))"
  by (auto simp: registerUser_def Let_def lock_inv_def split: option.splits)

lemma initiatePasswordReset_lock_inv:
  assumes inv: "lock_inv st"
  shows "lock_inv (snd (initiatePasswordReset L now uuid st em))"
proof (cases "validateEmail L (sanitizeInput L (toLowerCase em))")
  case False
  with inv show ?thesis by (simp add: initiatePasswordReset_def Let_def)
next
  case True
  show ?thesis
  proof (cases "reset_user_of L st em")
    case None
    with inv True show ?thesis
      by (simp add: initiatePasswordReset_def Let_def reset_user_of_def)
  next
    case (Some u)
    let ?p = "\<lambda>x. email x = sanitizeInput L (toLowerCase em)"
    let ?f = "\<lambda>x. x\<lparr>resetToken := Some uuid, resetTokenExpiry := Some (now + 60 * 60 * 1000)\<rparr>"
    from Some have f: "List.find ?p (users st) = Some u" by (simp add: reset_user_of_def)
    from reset_user_of_mem [OF Some] inv
    have c: "lockedUntil (?f u) \<noteq> None \<longrightarrow> 3 \<le> failedAttempts (?f u)"
      by (simp add: lock_inv_def)
    have e: "users (snd (initiatePasswordReset L now uuid st em)) = update_first ?p ?f (users st)"
      using True f by (simp add: initiatePasswordReset_def Let_def)
    show ?thesis by (rule lock_inv_update_first [OF inv f c e])
  qed
qed

lemma resetPassword_lock_inv:
  assumes inv: "lock_inv st"
  shows "lock_inv (snd (resetPassword L now salt st em token pw))"
proof (cases "success (fst (resetPassword L now salt st em token pw))")
  case False
  then have "snd (resetPassword L now salt st em token pw) = st"
    by (auto simp: resetPassword_def Let_def op_ok_def reset_user_of_def split: option.splits if_splits)
  with inv show ?thesis by simp
next
  case True
  then obtain u where v: "isValid (validatePassword pw)" and u: "reset_user_of L st em = Some u"
    and t: "\<not> ticket_rejected now token u"
    by (auto simp: resetPassword_success_iff)
  let ?p = "\<lambda>x. email x = sanitizeInput L (toLowerCase em)"
  from u have f: "List.find ?p (users st) = Some u" by (simp add: reset_user_of_def)
  have c: "lockedUntil (reset_user (bcrypt_hash L salt pw) u) \<noteq> None
      \<longrightarrow> 3 \<le> failedAttempts (reset_user (bcrypt_hash L salt pw) u)"
    by (simp add: reset_user_def)
  show ?thesis
    by (rule lock_inv_update_first [OF inv f c resetPassword_accepted(2) [OF v u t]])
qed

subsection \<open>The stand-in for bcrypt\<close>

text \<open>With a salt that has no \<open>$\<close>, a password verifies against a hash exactly when it made it.\<close>

lemma demo_bcrypt_contract:
  "CHR ''$'' \<notin> set salt \<Longrightarrow> demo_compare p (demo_hash salt q) = (p = q)"
  by (induction salt) (auto simp: demo_compare_def demo_hash_def)

end
